theory Spec2Isabelle
  imports Main "HOL-Library.Multiset"
begin

section \<open>Data model of the student portal (main.go)\<close>

text \<open>
  \<open>model.Student\<close> is a struct of three strings. The package that declares it is imported
  by main.go; its fields are the ones main.go reads and writes.
\<close>

record Student =
  ID :: string
  Name :: string
  StudyProgram :: string

text \<open>
  A Go \<open>error\<close> built by \<open>fmt.Errorf\<close> is identified by its message, so an error is the
  message text. A method returning \<open>(string, error)\<close> returns either the error (\<open>Inl\<close>) or
  the message (\<open>Inr\<close>).
\<close>

type_synonym error = string

text \<open>
  \<open>InMemoryStudentManager\<close>: the slice of students, the catalog of study programs and the
  failed-login counters. The counters are Go \<open>int\<close>s; \<open>Login\<close> increments a counter only when
  it is below 3, so no increment can overflow and the counters are modelled as \<open>int\<close>.
\<close>

record InMemoryStudentManager =
  students :: "Student list"
  studentStudyPrograms :: "string \<rightharpoonup> string"
  failedLoginAttempts :: "string \<rightharpoonup> int"

definition NewInMemoryStudentManager :: InMemoryStudentManager where
  "NewInMemoryStudentManager =
     \<lparr> students =
         [ \<lparr> ID = ''A12345'', Name = ''Aditira'', StudyProgram = ''TI'' \<rparr>,
           \<lparr> ID = ''B21313'', Name = ''Dito'', StudyProgram = ''TK'' \<rparr>,
           \<lparr> ID = ''A34555'', Name = ''Afis'', StudyProgram = ''MI'' \<rparr> ],
       studentStudyPrograms =
         [ ''TI'' \<mapsto> ''Teknik Informatika'',
           ''TK'' \<mapsto> ''Teknik Komputer'',
           ''SI'' \<mapsto> ''Sistem Informasi'',
           ''MI'' \<mapsto> ''Manajemen Informasi'' ],
       failedLoginAttempts = Map.empty \<rparr>"

definition GetStudents :: "InMemoryStudentManager \<Rightarrow> Student list" where
  "GetStudents sm = students sm"

subsection \<open>Go map reads and the increment of a counter\<close>

text \<open>Reading a missing key of a Go map gives the zero value of the value type.\<close>

definition attempts_of :: "(string \<rightharpoonup> int) \<Rightarrow> string \<Rightarrow> int" where
  "attempts_of m k = (case m k of None \<Rightarrow> 0 | Some c \<Rightarrow> c)"

definition program_name :: "(string \<rightharpoonup> string) \<Rightarrow> string \<Rightarrow> string" where
  "program_name m k = (case m k of None \<Rightarrow> [] | Some v \<Rightarrow> v)"

text \<open>\<open>sm.failedLoginAttempts[id]++\<close>\<close>

definition increment :: "(string \<rightharpoonup> int) \<Rightarrow> string \<Rightarrow> (string \<rightharpoonup> int)" where
  "increment m k = m(k \<mapsto> attempts_of m k + 1)"

subsection \<open>Login\<close>

text \<open>
  The loop of \<open>Login\<close> over \<open>sm.students\<close>: the first student whose ID is \<open>id\<close> decides;
  when the slice is exhausted the counter of \<open>id\<close> is incremented. The parameter \<open>id\<close>
  of the source is written \<open>ident\<close>, since \<open>id\<close> is the identity function of HOL.
\<close>

fun Login_loop ::
  "InMemoryStudentManager \<Rightarrow> string \<Rightarrow> string \<Rightarrow> Student list
     \<Rightarrow> InMemoryStudentManager \<times> (error + string)" where
  "Login_loop sm ident name [] =
     (sm\<lparr>failedLoginAttempts := increment (failedLoginAttempts sm) ident\<rparr>,
      Inl ''Login gagal: data mahasiswa tidak ditemukan'')"
| "Login_loop sm ident name (student # rest) =
     (if ID student = ident then
        (if Name student = name then
           (sm\<lparr>failedLoginAttempts := (failedLoginAttempts sm)(ident \<mapsto> 0)\<rparr>,
            Inr (''Login berhasil: Selamat datang '' @ Name student
                 @ ''! Kamu terdaftar di program studi: ''
                 @ program_name (studentStudyPrograms sm) (StudyProgram student)))
         else
           (sm\<lparr>failedLoginAttempts := increment (failedLoginAttempts sm) ident\<rparr>,
            Inl ''Login gagal: data mahasiswa tidak ditemukan''))
      else Login_loop sm ident name rest)"

text \<open>\<open>attempts, exists := sm.failedLoginAttempts[id]; exists && attempts >= 3\<close>\<close>

definition locked_out :: "InMemoryStudentManager \<Rightarrow> string \<Rightarrow> bool" where
  "locked_out sm ident =
     (case failedLoginAttempts sm ident of None \<Rightarrow> False | Some attempts \<Rightarrow> attempts \<ge> 3)"

definition Login ::
  "InMemoryStudentManager \<Rightarrow> string \<Rightarrow> string
     \<Rightarrow> InMemoryStudentManager \<times> (error + string)" where
  "Login sm ident name =
     (if ident = [] then (sm, Inl ''Login gagal: ID tidak boleh kosong'')
      else if name = [] then (sm, Inl ''Login gagal: Nama tidak boleh kosong'')
      else if locked_out sm ident then
        (sm, Inl ''Login gagal: Batas maksimum login terlampaui'')
      else Login_loop sm ident name (students sm))"

subsection \<open>Register\<close>

text \<open>
  \<open>Register\<close> in two parts, in the order of the source: the checks (the empty fields, the
  catalog, the loop looking for a student with this ID), then the append.
\<close>

fun Register_loop :: "string \<Rightarrow> Student list \<Rightarrow> error option" where
  "Register_loop ident [] = None"
| "Register_loop ident (student # rest) =
     (if ID student = ident then Some ''Registrasi gagal: id sudah digunakan''
      else Register_loop ident rest)"

definition Register_check ::
  "InMemoryStudentManager \<Rightarrow> string \<Rightarrow> string \<Rightarrow> string \<Rightarrow> error option" where
  "Register_check sm ident name studyProgram =
     (if ident = [] \<or> name = [] \<or> studyProgram = [] then
        Some ''ID, Name or StudyProgram is undefined!''
      else if studentStudyPrograms sm studyProgram = None then
        Some (''Study program '' @ studyProgram @ '' is not found'')
      else Register_loop ident (students sm))"

definition Register_append ::
  "InMemoryStudentManager \<Rightarrow> string \<Rightarrow> string \<Rightarrow> string
     \<Rightarrow> InMemoryStudentManager \<times> string" where
  "Register_append sm ident name studyProgram =
     (let newStudent = \<lparr> ID = ident, Name = name, StudyProgram = studyProgram \<rparr>
      in (sm\<lparr>students := students sm @ [newStudent]\<rparr>,
          ''Registrasi berhasil: '' @ Name newStudent
            @ '' ('' @ StudyProgram newStudent @ '')''))"

definition Register ::
  "InMemoryStudentManager \<Rightarrow> string \<Rightarrow> string \<Rightarrow> string
     \<Rightarrow> InMemoryStudentManager \<times> (error + string)" where
  "Register sm ident name studyProgram =
     (case Register_check sm ident name studyProgram of
        Some err \<Rightarrow> (sm, Inl err)
      | None \<Rightarrow>
          (case Register_append sm ident name studyProgram of
             (sm', msg) \<Rightarrow> (sm', Inr msg)))"

subsection \<open>GetStudyProgram\<close>

definition GetStudyProgram :: "InMemoryStudentManager \<Rightarrow> string \<Rightarrow> error + string" where
  "GetStudyProgram sm code =
     (case studentStudyPrograms sm code of
        Some program \<Rightarrow> Inr program
      | None \<Rightarrow> Inl ''program studi tidak ditemukan'')"

subsection \<open>ModifyStudent and ChangeStudyProgram\<close>

text \<open>
  A \<open>model.StudentModifier\<close> is a \<open>func(*model.Student) error\<close>: it may write the student it
  is given and returns an error or nil. It is modelled as a function from the student to
  the student as written and the optional error.
\<close>

type_synonym StudentModifier = "Student \<Rightarrow> Student \<times> error option"

definition ChangeStudyProgram :: "InMemoryStudentManager \<Rightarrow> string \<Rightarrow> StudentModifier" where
  "ChangeStudyProgram sm programStudi s =
     (if studentStudyPrograms sm programStudi = None then
        (s, Some ''program studi tidak valid'')
      else (s\<lparr>StudyProgram := programStudi\<rparr>, None))"

text \<open>
  The loop of \<open>ModifyStudent\<close>: \<open>i\<close> is the index of the student at the head of the part of
  the slice still to be visited; \<open>fn(&sm.students[i])\<close> writes element \<open>i\<close> in place.
\<close>

fun ModifyStudent_loop ::
  "InMemoryStudentManager \<Rightarrow> string \<Rightarrow> StudentModifier \<Rightarrow> nat \<Rightarrow> Student list
     \<Rightarrow> InMemoryStudentManager \<times> (error + string)" where
  "ModifyStudent_loop sm name fn i [] = (sm, Inl ''Mahasiswa tidak ditemukan'')"
| "ModifyStudent_loop sm name fn i (student # rest) =
     (if Name student = name then
        (case fn (students sm ! i) of
           (s', Some err) \<Rightarrow> (sm\<lparr>students := (students sm)[i := s']\<rparr>, Inl err)
         | (s', None) \<Rightarrow>
             (sm\<lparr>students := (students sm)[i := s']\<rparr>,
              Inr ''Program studi mahasiswa berhasil diubah.''))
      else ModifyStudent_loop sm name fn (Suc i) rest)"

definition ModifyStudent ::
  "InMemoryStudentManager \<Rightarrow> string \<Rightarrow> StudentModifier
     \<Rightarrow> InMemoryStudentManager \<times> (error + string)" where
  "ModifyStudent sm name fn = ModifyStudent_loop sm name fn 0 (students sm)"

subsection \<open>ReadStudentsFromCSV and ImportStudents\<close>

text \<open>
  The file system and \<open>encoding/csv\<close> are outside the repository. A file name either fails
  to open or opens to the sequence of outcomes of the successive \<open>reader.Read()\<close> calls
  before \<open>io.EOF\<close>: each a record (its fields) or an error of the reader.
\<close>

type_synonym csv_file = "(error + string list) list"
type_synonym filesystem = "string \<Rightarrow> error + csv_file"

text \<open>\<open>%v\<close> of a slice of strings: the fields between brackets, separated by spaces.\<close>

fun join_fields :: "string list \<Rightarrow> string" where
  "join_fields [] = []"
| "join_fields [x] = x"
| "join_fields (x # y # rest) = x @ '' '' @ join_fields (y # rest)"

text \<open>The loop of \<open>ReadStudentsFromCSV\<close>; \<open>batch\<close> is its local slice \<open>students\<close>.\<close>

fun ReadStudentsFromCSV_loop :: "csv_file \<Rightarrow> Student list \<Rightarrow> error + Student list" where
  "ReadStudentsFromCSV_loop [] batch = Inr batch"
| "ReadStudentsFromCSV_loop (Inl err # rest) batch = Inl err"
| "ReadStudentsFromCSV_loop (Inr record # rest) batch =
     (if length record \<noteq> 3 then
        Inl (''record is incomplete: ['' @ join_fields record @ '']'')
      else
        ReadStudentsFromCSV_loop rest
          (batch @ [\<lparr> ID = record ! 0, Name = record ! 1, StudyProgram = record ! 2 \<rparr>]))"

definition ReadStudentsFromCSV :: "filesystem \<Rightarrow> string \<Rightarrow> error + Student list" where
  "ReadStudentsFromCSV fs filename =
     (case fs filename of
        Inl err \<Rightarrow> Inl err
      | Inr file \<Rightarrow> ReadStudentsFromCSV_loop file [])"

text \<open>
  One goroutine per file name reads its file and sends the batch on \<open>studentsChan\<close> only
  when the read returned no error. \<open>sent_batches\<close> lists the batches sent, in the order of
  the file names.
\<close>

fun sent_batches :: "filesystem \<Rightarrow> string list \<Rightarrow> Student list list" where
  "sent_batches fs [] = []"
| "sent_batches fs (f # filenames) =
     (case ReadStudentsFromCSV fs f of
        Inl err \<Rightarrow> sent_batches fs filenames
      | Inr batch \<Rightarrow> batch # sent_batches fs filenames)"

text \<open>
  The consumer: for each batch received, for each student of the batch, \<open>Register\<close>; the
  first error returns from \<open>ImportStudents\<close>.
\<close>

fun ImportStudents_batch ::
  "InMemoryStudentManager \<Rightarrow> Student list \<Rightarrow> InMemoryStudentManager \<times> error option" where
  "ImportStudents_batch sm [] = (sm, None)"
| "ImportStudents_batch sm (student # rest) =
     (case Register sm (ID student) (Name student) (StudyProgram student) of
        (sm', Inl err) \<Rightarrow> (sm', Some err)
      | (sm', Inr msg) \<Rightarrow> ImportStudents_batch sm' rest)"

fun ImportStudents_consume ::
  "InMemoryStudentManager \<Rightarrow> Student list list \<Rightarrow> InMemoryStudentManager \<times> error option" where
  "ImportStudents_consume sm [] = (sm, None)"
| "ImportStudents_consume sm (batch # batches) =
     (case ImportStudents_batch sm batch of
        (sm', Some err) \<Rightarrow> (sm', Some err)
      | (sm', None) \<Rightarrow> ImportStudents_consume sm' batches)"

text \<open>
  The readers run in parallel, so the order in which their batches arrive on the channel
  is the scheduler's: \<open>arrival\<close> is that order, a rearrangement of the batches sent.
\<close>

type_synonym arrival = "Student list list \<Rightarrow> Student list list"

definition ImportStudents ::
  "InMemoryStudentManager \<Rightarrow> filesystem \<Rightarrow> string list \<Rightarrow> arrival
     \<Rightarrow> InMemoryStudentManager \<times> error option" where
  "ImportStudents sm fs filenames arrival =
     ImportStudents_consume sm (arrival (sent_batches fs filenames))"

subsection \<open>Sequences of operations on one manager\<close>

text \<open>
  The calls \<open>main\<close> makes on the manager, one constructor per method of the
  \<open>StudentManager\<close> interface. \<open>OpModifyStudent name code\<close> is
  \<open>ModifyStudent(name, sm.ChangeStudyProgram(code))\<close>, the one modifier of the source.
  \<open>SubmitAssignments\<close>, \<open>GetStudyProgram\<close> and \<open>GetStudents\<close> write no field of the manager.
\<close>

datatype operation =
    OpLogin string string
  | OpRegister string string string
  | OpGetStudyProgram string
  | OpModifyStudent string string
  | OpImportStudents filesystem "string list" arrival
  | OpSubmitAssignments int
  | OpGetStudents

fun apply_operation :: "InMemoryStudentManager \<Rightarrow> operation \<Rightarrow> InMemoryStudentManager" where
  "apply_operation sm (OpLogin ident name) = fst (Login sm ident name)"
| "apply_operation sm (OpRegister ident name studyProgram) =
     fst (Register sm ident name studyProgram)"
| "apply_operation sm (OpGetStudyProgram code) = sm"
| "apply_operation sm (OpModifyStudent name code) =
     fst (ModifyStudent sm name (ChangeStudyProgram sm code))"
| "apply_operation sm (OpImportStudents fs filenames arrival) =
     fst (ImportStudents sm fs filenames arrival)"
| "apply_operation sm (OpSubmitAssignments numAssignments) = sm"
| "apply_operation sm OpGetStudents = sm"

definition run_operations ::
  "InMemoryStudentManager \<Rightarrow> operation list \<Rightarrow> InMemoryStudentManager" where
  "run_operations sm ops = foldl apply_operation sm ops"

subsection \<open>Two goroutines in Register\<close>

text \<open>
  \<open>Register\<close> calls neither \<open>sm.Lock()\<close> nor \<open>sm.Unlock()\<close>, so another goroutine can run
  between its checks and its append. A call is at its checks, at its append, or has
  returned.
\<close>

datatype Register_pc = AtChecks | AtAppend | Returned "error + string"

record Register_call =
  arg_id :: string
  arg_name :: string
  arg_studyProgram :: string
  pc :: Register_pc

definition Register_step ::
  "InMemoryStudentManager \<Rightarrow> Register_call \<Rightarrow> InMemoryStudentManager \<times> Register_call" where
  "Register_step sm c =
     (case pc c of
        AtChecks \<Rightarrow>
          (case Register_check sm (arg_id c) (arg_name c) (arg_studyProgram c) of
             Some err \<Rightarrow> (sm, c\<lparr>pc := Returned (Inl err)\<rparr>)
           | None \<Rightarrow> (sm, c\<lparr>pc := AtAppend\<rparr>))
      | AtAppend \<Rightarrow>
          (case Register_append sm (arg_id c) (arg_name c) (arg_studyProgram c) of
             (sm', msg) \<Rightarrow> (sm', c\<lparr>pc := Returned (Inr msg)\<rparr>))
      | Returned r \<Rightarrow> (sm, c))"

text \<open>A schedule names, step by step, which of the two goroutines runs.\<close>

datatype goroutine = First | Second

fun Register_interleaved ::
  "goroutine list \<Rightarrow> InMemoryStudentManager \<times> Register_call \<times> Register_call
     \<Rightarrow> InMemoryStudentManager \<times> Register_call \<times> Register_call" where
  "Register_interleaved [] st = st"
| "Register_interleaved (First # sched) (sm, c1, c2) =
     (case Register_step sm c1 of (sm', c1') \<Rightarrow> Register_interleaved sched (sm', c1', c2))"
| "Register_interleaved (Second # sched) (sm, c1, c2) =
     (case Register_step sm c2 of (sm', c2') \<Rightarrow> Register_interleaved sched (sm', c1, c2'))"

subsection \<open>SubmitAssignments\<close>

text \<open>\<open>%d\<close> of \<open>fmt\<close>: an integer in decimal.\<close>

function decimal :: "nat \<Rightarrow> string" where
  "decimal n =
     (if n < 10 then [''0123456789'' ! n]
      else decimal (n div 10) @ [''0123456789'' ! (n mod 10)])"
  by pat_completeness auto
termination
  by (relation "measure (\<lambda>n. n)") auto

definition Sprint_d :: "int \<Rightarrow> string" where
  "Sprint_d i = (if i < 0 then CHR ''-'' # decimal (nat (- i)) else decimal (nat i))"

text \<open>
  The goroutines of \<open>SubmitAssignments\<close> and the two channels. A worker is about to receive
  from \<open>jobs\<close>, holds an assignment it has not processed yet, holds one it has processed and
  is about to send on \<open>results\<close>, or has left its loop (\<open>wg.Done()\<close>). The main goroutine is
  in its loop sending the assignments (at \<open>i\<close>), in its loop receiving the results, or past
  it.
\<close>

datatype worker = Receiving | Processing int | Sending int | Exited

datatype main_pc = MainFill int | MainCollect | MainDone

text \<open>
  \<open>jobs\<close> is the buffer of the channel \<open>jobs\<close>, of capacity \<open>numAssignments\<close>; \<open>results\<close> has
  no buffer, so a send on it and the receive of the main goroutine are one step, which
  also prints the result. \<open>printed\<close> lists the results printed: the worker and the
  assignment of each. \<open>processed\<close> counts the calls of \<open>SubmitAssignmentLongProcess\<close>;
  \<open>report\<close> holds the lines printed after the loop.
\<close>

record pool =
  numAssignments :: int
  main :: main_pc
  jobs :: "int list"
  jobs_closed :: bool
  workers :: "worker list"
  results_closed :: bool
  printed :: "(nat \<times> int) list"
  processed :: nat
  report :: "string list"

text \<open>
  The state after the four workers are started. \<open>make(chan int, numAssignments)\<close> panics
  on a negative size.
\<close>

definition SubmitAssignments_start :: "int \<Rightarrow> pool option" where
  "SubmitAssignments_start n =
     (if n < 0 then None
      else Some \<lparr> numAssignments = n, main = MainFill 1, jobs = [], jobs_closed = False,
                  workers = replicate 4 Receiving, results_closed = False, printed = [],
                  processed = 0, report = [] \<rparr>)"

text \<open>
  The time measured by \<open>time.Since(start)\<close>, in nanoseconds, with its rendering by
  \<open>Duration.String\<close>, and the lines printed from it.
\<close>

type_synonym timing = "int \<times> string"

definition timing_report :: "int \<Rightarrow> timing \<Rightarrow> string list" where
  "timing_report n t =
     [''Submitting '' @ Sprint_d n @ '' assignments took '' @ snd t]
     @ (if fst t > 150 * 1000000 then [''Warning: Submission took longer than expected!'']
        else if fst t < 110 * 1000000 then
          [''Warning: Submission was too fast, expected more workload!'']
        else [])"

datatype actor = Main | Worker nat | Closer

text \<open>
  Which goroutine can take a step: a send on the full buffer blocks, a receive on the
  empty open channel blocks, a send on \<open>results\<close> waits for the main goroutine to receive,
  and the goroutine closing \<open>results\<close> is started after \<open>close(jobs)\<close> and waits for the four
  workers.
\<close>

fun enabled :: "actor \<Rightarrow> pool \<Rightarrow> bool" where
  "enabled Main s =
     (case main s of
        MainFill i \<Rightarrow>
          (if i \<le> numAssignments s then int (length (jobs s)) < numAssignments s else True)
      | MainCollect \<Rightarrow> results_closed s
      | MainDone \<Rightarrow> False)"
| "enabled (Worker w) s =
     (1 \<le> w \<and> w \<le> length (workers s) \<and>
      (case workers s ! (w - 1) of
         Receiving \<Rightarrow> jobs s \<noteq> [] \<or> jobs_closed s
       | Processing assignment \<Rightarrow> True
       | Sending assignment \<Rightarrow> main s = MainCollect
       | Exited \<Rightarrow> False))"
| "enabled Closer s =
     ((case main s of MainFill i \<Rightarrow> False | MainCollect \<Rightarrow> True | MainDone \<Rightarrow> True) \<and>
      \<not> results_closed s \<and> list_all (\<lambda>w. w = Exited) (workers s))"

fun step :: "timing \<Rightarrow> actor \<Rightarrow> pool \<Rightarrow> pool" where
  "step t Main s =
     (case main s of
        MainFill i \<Rightarrow>
          (if i \<le> numAssignments s then s\<lparr>jobs := jobs s @ [i], main := MainFill (i + 1)\<rparr>
           else s\<lparr>jobs_closed := True, main := MainCollect\<rparr>)
      | MainCollect \<Rightarrow> s\<lparr>main := MainDone, report := timing_report (numAssignments s) t\<rparr>
      | MainDone \<Rightarrow> s)"
| "step t (Worker w) s =
     (case workers s ! (w - 1) of
        Receiving \<Rightarrow>
          (case jobs s of
             [] \<Rightarrow> s\<lparr>workers := (workers s)[w - 1 := Exited]\<rparr>
           | assignment # rest \<Rightarrow>
               s\<lparr>jobs := rest, workers := (workers s)[w - 1 := Processing assignment]\<rparr>)
      | Processing assignment \<Rightarrow>
          s\<lparr>processed := Suc (processed s),
            workers := (workers s)[w - 1 := Sending assignment]\<rparr>
      | Sending assignment \<Rightarrow>
          s\<lparr>printed := printed s @ [(w, assignment)],
            workers := (workers s)[w - 1 := Receiving]\<rparr>
      | Exited \<Rightarrow> s)"
| "step t Closer s = s\<lparr>results_closed := True\<rparr>"

text \<open>
  A run follows a schedule, the list of the goroutines that step, in order; a schedule
  that names a blocked goroutine is not a run.
\<close>

fun exec :: "timing \<Rightarrow> actor list \<Rightarrow> pool \<Rightarrow> pool option" where
  "exec t [] s = Some s"
| "exec t (a # sched) s = (if enabled a s then exec t sched (step t a s) else None)"

definition SubmitAssignments :: "int \<Rightarrow> timing \<Rightarrow> actor list \<Rightarrow> pool option" where
  "SubmitAssignments n t sched =
     (case SubmitAssignments_start n of None \<Rightarrow> None | Some s \<Rightarrow> exec t sched s)"

definition result_line :: "nat \<times> int \<Rightarrow> string" where
  "result_line r =
     ''Worker '' @ Sprint_d (int (fst r)) @ '': Finished assignment '' @ Sprint_d (snd r)"

definition stdout_lines :: "pool \<Rightarrow> string list" where
  "stdout_lines s = map result_line (printed s) @ report s"

text \<open>The assignment a worker holds, and the steps a run still has to take.\<close>

fun holding :: "worker \<Rightarrow> int list" where
  "holding Receiving = []"
| "holding (Processing assignment) = [assignment]"
| "holding (Sending assignment) = [assignment]"
| "holding Exited = []"

fun worker_steps :: "worker \<Rightarrow> nat" where
  "worker_steps Receiving = 1"
| "worker_steps (Processing assignment) = 3"
| "worker_steps (Sending assignment) = 2"
| "worker_steps Exited = 0"

fun main_steps :: "int \<Rightarrow> main_pc \<Rightarrow> nat" where
  "main_steps n (MainFill i) = 4 * nat (n + 1 - i) + 2"
| "main_steps n MainCollect = 1"
| "main_steps n MainDone = 0"

definition remaining_steps :: "pool \<Rightarrow> nat" where
  "remaining_steps s =
     main_steps (numAssignments s) (main s) + 3 * length (jobs s)
     + sum_list (map worker_steps (workers s)) + (if results_closed s then 0 else 1)"

subsection \<open>Invariants of the pool\<close>

text \<open>
  What stays true of the pool along a run: the main goroutine sends the assignments
  \<open>1..numAssignments\<close> in order and closes \<open>jobs\<close> after the last; \<open>results\<close> is closed only
  after every worker has left its loop; a worker leaves only when \<open>jobs\<close> is closed and
  empty; every assignment sent so far is in the buffer, held by one worker, or printed;
  every call of \<open>SubmitAssignmentLongProcess\<close> is for a result printed or about to be sent.
\<close>

fun sending_count :: "worker \<Rightarrow> nat" where
  "sending_count Receiving = 0"
| "sending_count (Processing assignment) = 0"
| "sending_count (Sending assignment) = 1"
| "sending_count Exited = 0"

definition sent_so_far :: "pool \<Rightarrow> int" where
  "sent_so_far s = (case main s of MainFill i \<Rightarrow> i - 1 | MainCollect \<Rightarrow> numAssignments s
                    | MainDone \<Rightarrow> numAssignments s)"

definition pool_inv :: "pool \<Rightarrow> bool" where
  "pool_inv s \<longleftrightarrow>
     0 \<le> numAssignments s \<and> workers s \<noteq> [] \<and>
     (case main s of
        MainFill i \<Rightarrow> 1 \<le> i \<and> i \<le> numAssignments s + 1 \<and> \<not> jobs_closed s \<and> \<not> results_closed s
      | MainCollect \<Rightarrow> jobs_closed s
      | MainDone \<Rightarrow> jobs_closed s \<and> results_closed s) \<and>
     (results_closed s \<longrightarrow> (\<forall>w \<in> set (workers s). w = Exited)) \<and>
     (Exited \<in> set (workers s) \<longrightarrow> jobs s = [] \<and> jobs_closed s) \<and>
     mset (map snd (printed s)) + mset (concat (map holding (workers s))) + mset (jobs s)
       = mset [1..sent_so_far s] \<and>
     processed s = length (printed s) + sum_list (map sending_count (workers s))"

text \<open>The lines after the loop are printed when the main goroutine leaves it.\<close>

definition report_inv :: "timing \<Rightarrow> pool \<Rightarrow> bool" where
  "report_inv t s \<longleftrightarrow>
     report s = (if main s = MainDone then timing_report (numAssignments s) t else [])"

section \<open>Login: the checks, the counters, the error values\<close>

lemma Login_loop_find:
  "Login_loop sm ident name xs =
     (case find (\<lambda>s. ID s = ident) xs of
        None \<Rightarrow>
          (sm\<lparr>failedLoginAttempts := increment (failedLoginAttempts sm) ident\<rparr>,
           Inl ''Login gagal: data mahasiswa tidak ditemukan'')
      | Some s \<Rightarrow>
          if Name s = name then
            (sm\<lparr>failedLoginAttempts := (failedLoginAttempts sm)(ident \<mapsto> 0)\<rparr>,
             Inr (''Login berhasil: Selamat datang '' @ Name s
                  @ ''! Kamu terdaftar di program studi: ''
                  @ program_name (studentStudyPrograms sm) (StudyProgram s)))
          else
            (sm\<lparr>failedLoginAttempts := increment (failedLoginAttempts sm) ident\<rparr>,
             Inl ''Login gagal: data mahasiswa tidak ditemukan''))"
  by (induction xs) simp_all

lemma Login_loop_frame:
  "students (fst (Login_loop sm ident name xs)) = students sm \<and>
   studentStudyPrograms (fst (Login_loop sm ident name xs)) = studentStudyPrograms sm \<and>
   (\<forall>other. other \<noteq> ident \<longrightarrow>
      failedLoginAttempts (fst (Login_loop sm ident name xs)) other
        = failedLoginAttempts sm other)"
  by (induction xs) (simp_all add: increment_def)

lemma Login_frame:
  "students (fst (Login sm ident name)) = students sm \<and>
   studentStudyPrograms (fst (Login sm ident name)) = studentStudyPrograms sm \<and>
   (\<forall>other. other \<noteq> ident \<longrightarrow>
      failedLoginAttempts (fst (Login sm ident name)) other = failedLoginAttempts sm other)"
  unfolding Login_def using Login_loop_frame [of sm ident name "students sm"] by simp

lemma Login_rejected_unchanged:
  "ident = [] \<or> name = [] \<or> locked_out sm ident \<Longrightarrow> fst (Login sm ident name) = sm"
  by (auto simp: Login_def)

lemma Login_locked:
  "ident \<noteq> [] \<Longrightarrow> name \<noteq> [] \<Longrightarrow> locked_out sm ident \<Longrightarrow>
     Login sm ident name = (sm, Inl ''Login gagal: Batas maksimum login terlampaui'')"
  by (simp add: Login_def)

lemma Login_open:
  "ident \<noteq> [] \<Longrightarrow> name \<noteq> [] \<Longrightarrow> \<not> locked_out sm ident \<Longrightarrow>
     Login sm ident name = Login_loop sm ident name (students sm)"
  by (simp add: Login_def)

lemma find_distinct_ID:
  "distinct (map ID xs) \<Longrightarrow> s \<in> set xs \<Longrightarrow> find (\<lambda>x. ID x = ID s) xs = Some s"
  by (induction xs) (auto simp: image_iff)

text \<open>
  Claim C10. \<open>Login\<close> with an empty id or an empty name returns the error of the empty
  field and the manager as it was, whatever the state: no counter is created or changed,
  and the check comes before the lockout check, so also a locked-out id with an empty name
  gets the error of the empty name and not the lockout error.
\<close>

theorem Login_empty_input:
  "(ident = [] \<longrightarrow>
      Login sm ident name = (sm, Inl ''Login gagal: ID tidak boleh kosong'')) \<and>
   (ident \<noteq> [] \<and> name = [] \<longrightarrow>
      Login sm ident name = (sm, Inl ''Login gagal: Nama tidak boleh kosong'')) \<and>
   (ident = [] \<or> name = [] \<longrightarrow>
      snd (Login sm ident name) \<noteq> Inl ''Login gagal: Batas maksimum login terlampaui'' \<and>
      failedLoginAttempts (fst (Login sm ident name)) = failedLoginAttempts sm)"
  by (simp add: Login_def)

theorem Login_empty_input_witness:
  "locked_out (NewInMemoryStudentManager\<lparr>failedLoginAttempts := [''A12345'' \<mapsto> 3]\<rparr>)
     ''A12345'' \<and>
   Login (NewInMemoryStudentManager\<lparr>failedLoginAttempts := [''A12345'' \<mapsto> 3]\<rparr>)
     ''A12345'' [] =
     (NewInMemoryStudentManager\<lparr>failedLoginAttempts := [''A12345'' \<mapsto> 3]\<rparr>,
      Inl ''Login gagal: Nama tidak boleh kosong'')"
  using Login_empty_input
    [of "''A12345''" "NewInMemoryStudentManager\<lparr>failedLoginAttempts := [''A12345'' \<mapsto> 3]\<rparr>"
        "[]"]
  by (simp add: locked_out_def)

text \<open>
  Claim C2. The counters after \<open>Login\<close>. A call rejected for an empty field or for the
  lockout returns an error and leaves the manager as it was. Any other call is decided by
  the first student whose ID is the id: with none, or with one of another name, the call
  fails and the counter of the id becomes its former value plus one, the former value
  being read from the map of counters itself (0 when the map has no entry for the id);
  with one of this name the call succeeds and the counter of the id becomes 0. The
  counter of every other id is as it was.
\<close>

theorem Login_counter_updates:
  "(ident = [] \<or> name = [] \<or> locked_out sm ident \<longrightarrow>
      fst (Login sm ident name) = sm \<and> isl (snd (Login sm ident name))) \<and>
   (ident \<noteq> [] \<and> name \<noteq> [] \<and> \<not> locked_out sm ident \<longrightarrow>
      (case find (\<lambda>s. ID s = ident) (students sm) of
         None \<Rightarrow>
           Login sm ident name =
             (sm\<lparr>failedLoginAttempts :=
                   (failedLoginAttempts sm)
                     (ident \<mapsto> (case failedLoginAttempts sm ident of None \<Rightarrow> 0 | Some c \<Rightarrow> c) + 1)\<rparr>,
              Inl ''Login gagal: data mahasiswa tidak ditemukan'')
       | Some s \<Rightarrow>
           if Name s = name then
             fst (Login sm ident name) =
               sm\<lparr>failedLoginAttempts := (failedLoginAttempts sm)(ident \<mapsto> 0)\<rparr> \<and>
             \<not> isl (snd (Login sm ident name))
           else
             Login sm ident name =
               (sm\<lparr>failedLoginAttempts :=
                     (failedLoginAttempts sm)
                       (ident \<mapsto> (case failedLoginAttempts sm ident of None \<Rightarrow> 0 | Some c \<Rightarrow> c) + 1)\<rparr>,
                Inl ''Login gagal: data mahasiswa tidak ditemukan''))) \<and>
   (\<forall>other. other \<noteq> ident \<longrightarrow>
      failedLoginAttempts (fst (Login sm ident name)) other = failedLoginAttempts sm other)"
proof (intro conjI impI)
  assume "ident = [] \<or> name = [] \<or> locked_out sm ident"
  then show "fst (Login sm ident name) = sm" by (rule Login_rejected_unchanged)
next
  assume "ident = [] \<or> name = [] \<or> locked_out sm ident"
  then show "isl (snd (Login sm ident name))" by (auto simp: Login_def)
next
  assume "ident \<noteq> [] \<and> name \<noteq> [] \<and> \<not> locked_out sm ident"
  then have "Login sm ident name = Login_loop sm ident name (students sm)"
    by (simp add: Login_open)
  then show "case find (\<lambda>s. ID s = ident) (students sm) of
         None \<Rightarrow>
           Login sm ident name =
             (sm\<lparr>failedLoginAttempts :=
                   (failedLoginAttempts sm)
                     (ident \<mapsto> (case failedLoginAttempts sm ident of None \<Rightarrow> 0 | Some c \<Rightarrow> c) + 1)\<rparr>,
              Inl ''Login gagal: data mahasiswa tidak ditemukan'')
       | Some s \<Rightarrow>
           if Name s = name then
             fst (Login sm ident name) =
               sm\<lparr>failedLoginAttempts := (failedLoginAttempts sm)(ident \<mapsto> 0)\<rparr> \<and>
             \<not> isl (snd (Login sm ident name))
           else
             Login sm ident name =
               (sm\<lparr>failedLoginAttempts :=
                     (failedLoginAttempts sm)
                       (ident \<mapsto> (case failedLoginAttempts sm ident of None \<Rightarrow> 0 | Some c \<Rightarrow> c) + 1)\<rparr>,
                Inl ''Login gagal: data mahasiswa tidak ditemukan'')"
    by (simp add: Login_loop_find increment_def attempts_of_def split: option.split)
next
  show "\<forall>other. other \<noteq> ident \<longrightarrow>
      failedLoginAttempts (fst (Login sm ident name)) other = failedLoginAttempts sm other"
    using Login_frame [of sm ident name] by simp
qed

theorem Login_counter_updates_witness:
  "failedLoginAttempts
     (fst (Login (NewInMemoryStudentManager
                    \<lparr>failedLoginAttempts := [''A12345'' \<mapsto> 2, ''Q'' \<mapsto> 1]\<rparr>)
             ''A12345'' ''WrongName'')) ''A12345'' = Some 3 \<and>
   failedLoginAttempts
     (fst (Login (NewInMemoryStudentManager
                    \<lparr>failedLoginAttempts := [''A12345'' \<mapsto> 2, ''Q'' \<mapsto> 1]\<rparr>)
             ''A12345'' ''WrongName'')) ''Q'' = Some 1 \<and>
   failedLoginAttempts
     (fst (Login (NewInMemoryStudentManager
                    \<lparr>failedLoginAttempts := [''A12345'' \<mapsto> 2, ''Q'' \<mapsto> 1]\<rparr>)
             ''Q'' ''Aditira'')) ''Q'' = Some 2 \<and>
   failedLoginAttempts
     (fst (Login (NewInMemoryStudentManager
                    \<lparr>failedLoginAttempts := [''A12345'' \<mapsto> 2, ''Q'' \<mapsto> 1]\<rparr>)
             ''A12345'' ''Aditira'')) ''A12345'' = Some 0 \<and>
   failedLoginAttempts
     (fst (Login (NewInMemoryStudentManager
                    \<lparr>failedLoginAttempts := [''A12345'' \<mapsto> 2, ''Q'' \<mapsto> 1]\<rparr>)
             ''B21313'' ''WrongName'')) ''B21313'' = Some 1 \<and>
   failedLoginAttempts
     (fst (Login (NewInMemoryStudentManager
                    \<lparr>failedLoginAttempts := [''A12345'' \<mapsto> 3, ''Q'' \<mapsto> 1]\<rparr>)
             ''A12345'' ''WrongName'')) ''A12345'' = Some 3"
  using
    Login_counter_updates [of "''A12345''" "''WrongName''"
      "NewInMemoryStudentManager\<lparr>failedLoginAttempts := [''A12345'' \<mapsto> 2, ''Q'' \<mapsto> 1]\<rparr>"]
    Login_counter_updates [of "''Q''" "''Aditira''"
      "NewInMemoryStudentManager\<lparr>failedLoginAttempts := [''A12345'' \<mapsto> 2, ''Q'' \<mapsto> 1]\<rparr>"]
    Login_counter_updates [of "''A12345''" "''Aditira''"
      "NewInMemoryStudentManager\<lparr>failedLoginAttempts := [''A12345'' \<mapsto> 2, ''Q'' \<mapsto> 1]\<rparr>"]
    Login_counter_updates [of "''B21313''" "''WrongName''"
      "NewInMemoryStudentManager\<lparr>failedLoginAttempts := [''A12345'' \<mapsto> 2, ''Q'' \<mapsto> 1]\<rparr>"]
    Login_counter_updates [of "''A12345''" "''WrongName''"
      "NewInMemoryStudentManager\<lparr>failedLoginAttempts := [''A12345'' \<mapsto> 3, ''Q'' \<mapsto> 1]\<rparr>"]
  by (simp add: locked_out_def NewInMemoryStudentManager_def)

text \<open>
  Claim C3. Two calls of \<open>Login\<close>, each with a non-empty id and name and an id that is not
  locked out: in the first no student has the id; in the second the student with the id
  (the first one in the slice; the only one when the IDs are distinct) has another name.
  Both return the same error value, the generic message, so the result does not tell
  which field was wrong.
\<close>

theorem Login_failures_indistinguishable:
  assumes "ident1 \<noteq> []" "name1 \<noteq> []" "\<not> locked_out sm1 ident1"
    and "ident2 \<noteq> []" "name2 \<noteq> []" "\<not> locked_out sm2 ident2"
    and unknown: "\<forall>s \<in> set (students sm1). ID s \<noteq> ident1"
    and known: "find (\<lambda>s. ID s = ident2) (students sm2) = Some s2 \<or>
                (distinct (map ID (students sm2)) \<and> s2 \<in> set (students sm2) \<and> ID s2 = ident2)"
    and wrong: "Name s2 \<noteq> name2"
  shows "snd (Login sm1 ident1 name1) = snd (Login sm2 ident2 name2) \<and>
         snd (Login sm1 ident1 name1) = Inl ''Login gagal: data mahasiswa tidak ditemukan''"
proof -
  from unknown have "find (\<lambda>s. ID s = ident1) (students sm1) = None"
    by (simp add: find_None_iff)
  with assms(1-3)
  have a: "snd (Login sm1 ident1 name1) = Inl ''Login gagal: data mahasiswa tidak ditemukan''"
    by (simp add: Login_open Login_loop_find)
  from known have "find (\<lambda>s. ID s = ident2) (students sm2) = Some s2"
    using find_distinct_ID [of "students sm2" s2] by auto
  with wrong assms(4-6)
  have b: "snd (Login sm2 ident2 name2) = Inl ''Login gagal: data mahasiswa tidak ditemukan''"
    by (simp add: Login_open Login_loop_find)
  from a b show ?thesis by simp
qed

theorem Login_failures_indistinguishable_witness:
  "snd (Login NewInMemoryStudentManager ''Q99999'' ''Aditira'')
     = snd (Login NewInMemoryStudentManager ''A12345'' ''Dito'') \<and>
   snd (Login NewInMemoryStudentManager ''Q99999'' ''Aditira'')
     = Inl ''Login gagal: data mahasiswa tidak ditemukan''"
  by (rule Login_failures_indistinguishable
        [where ?s2.0 = "\<lparr> ID = ''A12345'', Name = ''Aditira'', StudyProgram = ''TI'' \<rparr>"])
     (simp_all add: locked_out_def NewInMemoryStudentManager_def)

section \<open>Register\<close>

lemma Register_loop_None: "Register_loop ident xs = None \<longleftrightarrow> (\<forall>s \<in> set xs. ID s \<noteq> ident)"
  by (induction xs) auto

lemma Register_loop_Some:
  "(\<exists>s \<in> set xs. ID s = ident) \<Longrightarrow>
     Register_loop ident xs = Some ''Registrasi gagal: id sudah digunakan''"
  by (induction xs) auto

lemma Register_fail_unchanged: "Register sm ident name p = (sm', Inl err) \<Longrightarrow> sm' = sm"
  by (auto simp: Register_def Register_append_def split: option.splits)

lemma Register_success:
  "Register sm ident name p = (sm', Inr msg) \<Longrightarrow>
     sm' = sm\<lparr>students := students sm @ [\<lparr> ID = ident, Name = name, StudyProgram = p \<rparr>]\<rparr> \<and>
     (\<forall>s \<in> set (students sm). ID s \<noteq> ident)"
  by (auto simp: Register_def Register_append_def Register_check_def Register_loop_None
           split: option.splits if_splits)

text \<open>
  Claim C4. \<open>Register\<close>, by its checks in their order: an empty id, name or study program
  gives the error of the undefined field; otherwise a study program that is no key of the
  catalog gives the error naming it; otherwise an id that a student already has gives the
  error of the used id; all three leave the manager as it was. Otherwise the student is
  appended at the end of the slice, so that \<open>GetStudents\<close> is the former list followed by
  the new student, one longer. On the initial manager
  \<open>Register("Z00000", "New Student", "XX")\<close> fails, \<open>XX\<close> being no key of the catalog.
\<close>

theorem Register_outcomes:
  "(ident = [] \<or> name = [] \<or> studyProgram = [] \<longrightarrow>
      Register sm ident name studyProgram =
        (sm, Inl ''ID, Name or StudyProgram is undefined!'')) \<and>
   (ident \<noteq> [] \<and> name \<noteq> [] \<and> studyProgram \<noteq> [] \<and>
    studentStudyPrograms sm studyProgram = None \<longrightarrow>
      Register sm ident name studyProgram =
        (sm, Inl (''Study program '' @ studyProgram @ '' is not found''))) \<and>
   (ident \<noteq> [] \<and> name \<noteq> [] \<and> studyProgram \<noteq> [] \<and>
    studentStudyPrograms sm studyProgram \<noteq> None \<and>
    (\<exists>s \<in> set (students sm). ID s = ident) \<longrightarrow>
      Register sm ident name studyProgram =
        (sm, Inl ''Registrasi gagal: id sudah digunakan'')) \<and>
   (ident \<noteq> [] \<and> name \<noteq> [] \<and> studyProgram \<noteq> [] \<and>
    studentStudyPrograms sm studyProgram \<noteq> None \<and>
    (\<forall>s \<in> set (students sm). ID s \<noteq> ident) \<longrightarrow>
      Register sm ident name studyProgram =
        (sm\<lparr>students :=
              students sm @ [\<lparr> ID = ident, Name = name, StudyProgram = studyProgram \<rparr>]\<rparr>,
         Inr (''Registrasi berhasil: '' @ name @ '' ('' @ studyProgram @ '')'')) \<and>
      GetStudents (fst (Register sm ident name studyProgram)) =
        GetStudents sm @ [\<lparr> ID = ident, Name = name, StudyProgram = studyProgram \<rparr>] \<and>
      length (GetStudents (fst (Register sm ident name studyProgram))) =
        length (GetStudents sm) + 1) \<and>
   Register NewInMemoryStudentManager ''Z00000'' ''New Student'' ''XX'' =
     (NewInMemoryStudentManager, Inl ''Study program XX is not found'')"
proof (intro conjI impI)
  assume "ident = [] \<or> name = [] \<or> studyProgram = []"
  then show "Register sm ident name studyProgram =
        (sm, Inl ''ID, Name or StudyProgram is undefined!'')"
    by (auto simp: Register_def Register_check_def)
next
  assume "ident \<noteq> [] \<and> name \<noteq> [] \<and> studyProgram \<noteq> [] \<and>
    studentStudyPrograms sm studyProgram = None"
  then show "Register sm ident name studyProgram =
        (sm, Inl (''Study program '' @ studyProgram @ '' is not found''))"
    by (simp add: Register_def Register_check_def)
next
  assume "ident \<noteq> [] \<and> name \<noteq> [] \<and> studyProgram \<noteq> [] \<and>
    studentStudyPrograms sm studyProgram \<noteq> None \<and>
    (\<exists>s \<in> set (students sm). ID s = ident)"
  then show "Register sm ident name studyProgram =
        (sm, Inl ''Registrasi gagal: id sudah digunakan'')"
    by (simp add: Register_def Register_check_def Register_loop_Some)
next
  assume a: "ident \<noteq> [] \<and> name \<noteq> [] \<and> studyProgram \<noteq> [] \<and>
    studentStudyPrograms sm studyProgram \<noteq> None \<and>
    (\<forall>s \<in> set (students sm). ID s \<noteq> ident)"
  then have "Register_loop ident (students sm) = None"
    by (simp add: Register_loop_None)
  with a show r: "Register sm ident name studyProgram =
        (sm\<lparr>students :=
              students sm @ [\<lparr> ID = ident, Name = name, StudyProgram = studyProgram \<rparr>]\<rparr>,
         Inr (''Registrasi berhasil: '' @ name @ '' ('' @ studyProgram @ '')''))"
    by (simp add: Register_def Register_check_def Register_append_def)
  then show "GetStudents (fst (Register sm ident name studyProgram)) =
        GetStudents sm @ [\<lparr> ID = ident, Name = name, StudyProgram = studyProgram \<rparr>]"
    by (simp add: GetStudents_def)
  from r show "length (GetStudents (fst (Register sm ident name studyProgram))) =
        length (GetStudents sm) + 1"
    by (simp add: GetStudents_def)
next
  show "Register NewInMemoryStudentManager ''Z00000'' ''New Student'' ''XX'' =
     (NewInMemoryStudentManager, Inl ''Study program XX is not found'')"
    by (simp add: Register_def Register_check_def NewInMemoryStudentManager_def)
qed

theorem Register_outcomes_witness:
  "Register NewInMemoryStudentManager ''Z00000'' ''New Student'' ''SI'' =
     (NewInMemoryStudentManager\<lparr>students :=
        students NewInMemoryStudentManager
          @ [\<lparr> ID = ''Z00000'', Name = ''New Student'', StudyProgram = ''SI'' \<rparr>]\<rparr>,
      Inr ''Registrasi berhasil: New Student (SI)'') \<and>
   Register NewInMemoryStudentManager ''B21313'' ''New Student'' ''SI'' =
     (NewInMemoryStudentManager, Inl ''Registrasi gagal: id sudah digunakan'') \<and>
   Register NewInMemoryStudentManager ''Z00000'' [] ''XX'' =
     (NewInMemoryStudentManager, Inl ''ID, Name or StudyProgram is undefined!'')"
  using Register_outcomes [of "''Z00000''" "''New Student''" "''SI''" NewInMemoryStudentManager]
    Register_outcomes [of "''B21313''" "''New Student''" "''SI''" NewInMemoryStudentManager]
    Register_outcomes [of "''Z00000''" "[]" "''XX''" NewInMemoryStudentManager]
  by (simp add: NewInMemoryStudentManager_def)

section \<open>Unique IDs\<close>

lemma Register_distinct:
  "distinct (map ID (students sm)) \<Longrightarrow>
     distinct (map ID (students (fst (Register sm ident name p))))"
proof (cases "Register sm ident name p")
  case (Pair sm' r)
  assume d: "distinct (map ID (students sm))"
  show ?thesis
  proof (cases r)
    case (Inl err)
    with Pair have "sm' = sm" by (simp add: Register_fail_unchanged)
    with d Pair show ?thesis by simp
  next
    case (Inr msg)
    with Pair Register_success [of sm ident name p sm' msg] d show ?thesis
      by (auto simp: image_iff)
  qed
qed

lemma Register_attempts:
  "failedLoginAttempts (fst (Register sm ident name p)) = failedLoginAttempts sm \<and>
   studentStudyPrograms (fst (Register sm ident name p)) = studentStudyPrograms sm"
  by (simp add: Register_def Register_append_def split: option.splits)

lemma ImportStudents_batch_distinct:
  "distinct (map ID (students sm)) \<Longrightarrow>
     distinct (map ID (students (fst (ImportStudents_batch sm batch))))"
proof (induction batch arbitrary: sm)
  case Nil
  then show ?case by simp
next
  case (Cons student rest)
  obtain sm' r where reg: "Register sm (ID student) (Name student) (StudyProgram student) = (sm', r)"
    by (cases "Register sm (ID student) (Name student) (StudyProgram student)")
  with Cons.prems Register_distinct [of sm "ID student" "Name student" "StudyProgram student"]
  have d': "distinct (map ID (students sm'))" by simp
  show ?case
  proof (cases r)
    case (Inl err)
    with reg d' show ?thesis by simp
  next
    case (Inr msg)
    with reg Cons.IH [OF d'] show ?thesis by simp
  qed
qed

lemma ImportStudents_batch_attempts:
  "failedLoginAttempts (fst (ImportStudents_batch sm batch)) = failedLoginAttempts sm"
proof (induction batch arbitrary: sm)
  case Nil
  then show ?case by simp
next
  case (Cons student rest)
  obtain sm' r where reg: "Register sm (ID student) (Name student) (StudyProgram student) = (sm', r)"
    by (cases "Register sm (ID student) (Name student) (StudyProgram student)")
  with Register_attempts [of sm "ID student" "Name student" "StudyProgram student"]
  have a: "failedLoginAttempts sm' = failedLoginAttempts sm" by simp
  show ?case
  proof (cases r)
    case (Inl err)
    with reg a show ?thesis by simp
  next
    case (Inr msg)
    with reg a Cons.IH [of sm'] show ?thesis by simp
  qed
qed

lemma ImportStudents_consume_distinct:
  "distinct (map ID (students sm)) \<Longrightarrow>
     distinct (map ID (students (fst (ImportStudents_consume sm batches))))"
proof (induction batches arbitrary: sm)
  case Nil
  then show ?case by simp
next
  case (Cons batch rest)
  obtain sm' r where b: "ImportStudents_batch sm batch = (sm', r)"
    by (cases "ImportStudents_batch sm batch")
  with Cons.prems ImportStudents_batch_distinct [of sm batch]
  have d': "distinct (map ID (students sm'))" by simp
  show ?case
  proof (cases r)
    case None
    with b Cons.IH [OF d'] show ?thesis by simp
  next
    case (Some err)
    with b d' show ?thesis by simp
  qed
qed

lemma ImportStudents_consume_attempts:
  "failedLoginAttempts (fst (ImportStudents_consume sm batches)) = failedLoginAttempts sm"
proof (induction batches arbitrary: sm)
  case Nil
  then show ?case by simp
next
  case (Cons batch rest)
  obtain sm' r where b: "ImportStudents_batch sm batch = (sm', r)"
    by (cases "ImportStudents_batch sm batch")
  with ImportStudents_batch_attempts [of sm batch]
  have a: "failedLoginAttempts sm' = failedLoginAttempts sm" by simp
  show ?case
  proof (cases r)
    case None
    with b a Cons.IH [of sm'] show ?thesis by simp
  next
    case (Some err)
    with b a show ?thesis by simp
  qed
qed

section \<open>ModifyStudent\<close>

lemma ModifyStudent_loop_eq:
  "xs = drop i (students sm) \<Longrightarrow>
     ModifyStudent_loop sm name fn i xs =
       (if \<forall>s \<in> set xs. Name s \<noteq> name then (sm, Inl ''Mahasiswa tidak ditemukan'')
        else
          (case fn (students sm ! (i + length (takeWhile (\<lambda>s. Name s \<noteq> name) xs))) of
             (s', err) \<Rightarrow>
               (sm\<lparr>students :=
                     (students sm)[i + length (takeWhile (\<lambda>s. Name s \<noteq> name) xs) := s']\<rparr>,
                case err of
                  Some e \<Rightarrow> Inl e
                | None \<Rightarrow> Inr ''Program studi mahasiswa berhasil diubah.'')))"
proof (induction xs arbitrary: i)
  case Nil
  then show ?case by simp
next
  case (Cons student rest)
  from Cons.prems have i: "i < length (students sm)"
    by (metis drop_all list.distinct(1) not_le)
  with Cons.prems have rest: "rest = drop (Suc i) (students sm)"
    by (metis Cons_nth_drop_Suc list.inject)
  show ?case
  proof (cases "Name student = name")
    case True
    then show ?thesis by (simp split: prod.splits option.splits)
  next
    case False
    with Cons.IH [OF rest] show ?thesis by simp
  qed
qed

lemma ModifyStudent_eq:
  "ModifyStudent sm name fn =
       (if \<forall>s \<in> set (students sm). Name s \<noteq> name then (sm, Inl ''Mahasiswa tidak ditemukan'')
        else
          (case fn (students sm ! length (takeWhile (\<lambda>s. Name s \<noteq> name) (students sm))) of
             (s', err) \<Rightarrow>
               (sm\<lparr>students :=
                     (students sm)[length (takeWhile (\<lambda>s. Name s \<noteq> name) (students sm)) := s']\<rparr>,
                case err of
                  Some e \<Rightarrow> Inl e
                | None \<Rightarrow> Inr ''Program studi mahasiswa berhasil diubah.'')))"
  unfolding ModifyStudent_def using ModifyStudent_loop_eq [of "students sm" 0 sm name fn] by simp

lemma ModifyStudent_attempts:
  "failedLoginAttempts (fst (ModifyStudent sm name fn)) = failedLoginAttempts sm \<and>
   studentStudyPrograms (fst (ModifyStudent sm name fn)) = studentStudyPrograms sm"
  by (simp add: ModifyStudent_eq split: prod.splits)

lemma ChangeStudyProgram_ID: "ID (fst (ChangeStudyProgram sm code s)) = ID s"
  by (simp add: ChangeStudyProgram_def)

lemma first_match_index:
  "\<exists>s \<in> set xs. Name s = name \<Longrightarrow>
     length (takeWhile (\<lambda>s. Name s \<noteq> name) xs) < length xs \<and>
     Name (xs ! length (takeWhile (\<lambda>s. Name s \<noteq> name) xs)) = name"
  by (induction xs) auto

lemma map_ID_update:
  "i < length xs \<Longrightarrow> ID s' = ID (xs ! i) \<Longrightarrow> map ID (xs[i := s']) = map ID xs"
  by (simp add: map_update list_update_same_conv)

lemma ModifyStudent_Change_IDs:
  "map ID (students (fst (ModifyStudent sm name (ChangeStudyProgram sm' code)))) = map ID (students sm)"
proof (cases "\<forall>s \<in> set (students sm). Name s \<noteq> name")
  case True
  then show ?thesis by (simp add: ModifyStudent_eq)
next
  case False
  let ?i = "length (takeWhile (\<lambda>s. Name s \<noteq> name) (students sm))"
  obtain s' err where f: "ChangeStudyProgram sm' code (students sm ! ?i) = (s', err)"
    by (cases "ChangeStudyProgram sm' code (students sm ! ?i)")
  with ChangeStudyProgram_ID [of sm' code "students sm ! ?i"]
  have "ID s' = ID (students sm ! ?i)" by simp
  with False f first_match_index [of "students sm" name] show ?thesis
    by (simp add: ModifyStudent_eq map_ID_update)
qed

lemma before_first_match:
  "j < length (takeWhile (\<lambda>s. Name s \<noteq> name) xs) \<Longrightarrow> Name (xs ! j) \<noteq> name"
  by (metis (mono_tags, lifting) nth_mem set_takeWhileD takeWhile_nth)

text \<open>
  Claim C6. \<open>i\<close> is the number of students before the first one named \<open>name\<close>. With no
  such student \<open>ModifyStudent\<close> returns the not-found error and the manager as it was.
  Otherwise student \<open>i\<close> is the first of this name, the modifier is applied to it alone and
  what it wrote is stored at \<open>i\<close>; an error of the modifier is returned as it is, otherwise
  the success message; every other student, the catalog and the counters are as before.
  \<open>ChangeStudyProgram\<close> with a code that is no key of the catalog returns its error and
  the student unchanged, otherwise it sets the study program.
\<close>

theorem ModifyStudent_first_match:
  assumes "i = length (takeWhile (\<lambda>s. Name s \<noteq> name) (students sm))"
  shows
  "((\<forall>s \<in> set (students sm). Name s \<noteq> name) \<longrightarrow>
      ModifyStudent sm name fn = (sm, Inl ''Mahasiswa tidak ditemukan'')) \<and>
   ((\<exists>s \<in> set (students sm). Name s = name) \<longrightarrow>
      i < length (students sm) \<and> Name (students sm ! i) = name \<and>
      (\<forall>j < i. Name (students sm ! j) \<noteq> name) \<and>
      ModifyStudent sm name fn =
        (sm\<lparr>students := (students sm)[i := fst (fn (students sm ! i))]\<rparr>,
         case snd (fn (students sm ! i)) of
           Some err \<Rightarrow> Inl err
         | None \<Rightarrow> Inr ''Program studi mahasiswa berhasil diubah.'') \<and>
      length (students (fst (ModifyStudent sm name fn))) = length (students sm) \<and>
      (\<forall>j < length (students sm). j \<noteq> i \<longrightarrow>
         students (fst (ModifyStudent sm name fn)) ! j = students sm ! j)) \<and>
   failedLoginAttempts (fst (ModifyStudent sm name fn)) = failedLoginAttempts sm \<and>
   studentStudyPrograms (fst (ModifyStudent sm name fn)) = studentStudyPrograms sm \<and>
   (studentStudyPrograms sm code = None \<longrightarrow>
      ChangeStudyProgram sm code s = (s, Some ''program studi tidak valid'')) \<and>
   (studentStudyPrograms sm code \<noteq> None \<longrightarrow>
      ChangeStudyProgram sm code s = (s\<lparr>StudyProgram := code\<rparr>, None))"
proof (intro conjI impI)
  assume "\<forall>s \<in> set (students sm). Name s \<noteq> name"
  then show "ModifyStudent sm name fn = (sm, Inl ''Mahasiswa tidak ditemukan'')"
    by (simp add: ModifyStudent_eq)
next
  assume ex: "\<exists>s \<in> set (students sm). Name s = name"
  with assms first_match_index [of "students sm" name]
  show "i < length (students sm)" and "Name (students sm ! i) = name" by simp_all
  from assms show "\<forall>j < i. Name (students sm ! j) \<noteq> name"
    by (simp add: before_first_match)
  from ex have ne: "\<not> (\<forall>s \<in> set (students sm). Name s \<noteq> name)" by blast
  have "ModifyStudent sm name fn =
          (case fn (students sm ! i) of
             (s', err) \<Rightarrow>
               (sm\<lparr>students := (students sm)[i := s']\<rparr>,
                case err of
                  Some e \<Rightarrow> Inl e
                | None \<Rightarrow> Inr ''Program studi mahasiswa berhasil diubah.''))"
    unfolding assms by (subst ModifyStudent_eq) (simp only: ne if_False)
  then show m: "ModifyStudent sm name fn =
        (sm\<lparr>students := (students sm)[i := fst (fn (students sm ! i))]\<rparr>,
         case snd (fn (students sm ! i)) of
           Some err \<Rightarrow> Inl err
         | None \<Rightarrow> Inr ''Program studi mahasiswa berhasil diubah.'')"
    by (simp only: case_prod_beta)
  then show "length (students (fst (ModifyStudent sm name fn))) = length (students sm)"
    by simp
  from m show "\<forall>j < length (students sm). j \<noteq> i \<longrightarrow>
         students (fst (ModifyStudent sm name fn)) ! j = students sm ! j"
    by simp
next
  show "failedLoginAttempts (fst (ModifyStudent sm name fn)) = failedLoginAttempts sm"
    and "studentStudyPrograms (fst (ModifyStudent sm name fn)) = studentStudyPrograms sm"
    by (simp_all add: ModifyStudent_attempts)
next
  assume "studentStudyPrograms sm code = None"
  then show "ChangeStudyProgram sm code s = (s, Some ''program studi tidak valid'')"
    by (simp add: ChangeStudyProgram_def)
next
  assume "studentStudyPrograms sm code \<noteq> None"
  then show "ChangeStudyProgram sm code s = (s\<lparr>StudyProgram := code\<rparr>, None)"
    by (simp add: ChangeStudyProgram_def)
qed

theorem ModifyStudent_first_match_witness:
  "ModifyStudent NewInMemoryStudentManager ''Dito''
     (ChangeStudyProgram NewInMemoryStudentManager ''SI'') =
     (NewInMemoryStudentManager\<lparr>students :=
         [ \<lparr> ID = ''A12345'', Name = ''Aditira'', StudyProgram = ''TI'' \<rparr>,
           \<lparr> ID = ''B21313'', Name = ''Dito'', StudyProgram = ''SI'' \<rparr>,
           \<lparr> ID = ''A34555'', Name = ''Afis'', StudyProgram = ''MI'' \<rparr> ]\<rparr>,
      Inr ''Program studi mahasiswa berhasil diubah.'') \<and>
   ModifyStudent NewInMemoryStudentManager ''Dito''
     (ChangeStudyProgram NewInMemoryStudentManager ''XX'') =
     (NewInMemoryStudentManager, Inl ''program studi tidak valid'') \<and>
   ModifyStudent NewInMemoryStudentManager ''Nobody''
     (ChangeStudyProgram NewInMemoryStudentManager ''SI'') =
     (NewInMemoryStudentManager, Inl ''Mahasiswa tidak ditemukan'')"
  using
    ModifyStudent_first_match [of 1 "''Dito''" NewInMemoryStudentManager
      "ChangeStudyProgram NewInMemoryStudentManager ''SI''" "''SI''"
      "\<lparr> ID = ''B21313'', Name = ''Dito'', StudyProgram = ''TK'' \<rparr>"]
    ModifyStudent_first_match [of 1 "''Dito''" NewInMemoryStudentManager
      "ChangeStudyProgram NewInMemoryStudentManager ''XX''" "''XX''"
      "\<lparr> ID = ''B21313'', Name = ''Dito'', StudyProgram = ''TK'' \<rparr>"]
    ModifyStudent_first_match [of 3 "''Nobody''" NewInMemoryStudentManager
      "ChangeStudyProgram NewInMemoryStudentManager ''SI''" "''SI''"
      "\<lparr> ID = ''B21313'', Name = ''Dito'', StudyProgram = ''TK'' \<rparr>"]
  by (simp add: NewInMemoryStudentManager_def)

section \<open>Sequences of operations\<close>

lemma apply_operation_distinct:
  "distinct (map ID (students sm)) \<Longrightarrow> distinct (map ID (students (apply_operation sm op)))"
proof (cases op)
  case (OpLogin ident name)
  assume "distinct (map ID (students sm))"
  with OpLogin Login_frame [of sm ident name] show ?thesis by simp
next
  case (OpRegister ident name p)
  assume "distinct (map ID (students sm))"
  with OpRegister show ?thesis by (simp add: Register_distinct)
next
  case (OpModifyStudent name code)
  assume "distinct (map ID (students sm))"
  with OpModifyStudent show ?thesis by (simp add: ModifyStudent_Change_IDs)
next
  case (OpImportStudents fs filenames arrival)
  assume "distinct (map ID (students sm))"
  with OpImportStudents show ?thesis
    by (simp add: ImportStudents_def ImportStudents_consume_distinct)
qed simp_all

lemma run_operations_distinct:
  "distinct (map ID (students sm)) \<Longrightarrow> distinct (map ID (students (run_operations sm ops)))"
  unfolding run_operations_def
  by (induction ops arbitrary: sm) (simp_all add: apply_operation_distinct)

text \<open>
  Claim C5. From the initial manager, whose three students have distinct IDs, after any
  sequence of calls of \<open>Login\<close>, \<open>Register\<close>, \<open>GetStudyProgram\<close>, \<open>ModifyStudent\<close> with
  \<open>ChangeStudyProgram\<close>, \<open>ImportStudents\<close>, \<open>SubmitAssignments\<close> and \<open>GetStudents\<close>, no two
  students of the slice have the same ID.
\<close>

theorem ID_unique_invariant:
  "distinct (map ID (students (run_operations NewInMemoryStudentManager ops)))"
  by (rule run_operations_distinct) (simp add: NewInMemoryStudentManager_def)

theorem ID_unique_invariant_witness:
  "map ID (students (run_operations NewInMemoryStudentManager
      [OpRegister ''A12345'' ''Twin'' ''TI'', OpRegister ''Z00000'' ''New Student'' ''SI'',
       OpModifyStudent ''Dito'' ''MI'', OpLogin ''A12345'' ''Aditira'',
       OpImportStudents (\<lambda>f. Inr [Inr [''Z00000'', ''Again'', ''TI'']]) [''a.csv'']
         (\<lambda>bs. bs)]))
     = [''A12345'', ''B21313'', ''A34555'', ''Z00000''] \<and>
   distinct (map ID (students (run_operations NewInMemoryStudentManager
      [OpRegister ''A12345'' ''Twin'' ''TI'', OpRegister ''Z00000'' ''New Student'' ''SI'',
       OpModifyStudent ''Dito'' ''MI'', OpLogin ''A12345'' ''Aditira'',
       OpImportStudents (\<lambda>f. Inr [Inr [''Z00000'', ''Again'', ''TI'']]) [''a.csv'']
         (\<lambda>bs. bs)])))"
proof
  show "map ID (students (run_operations NewInMemoryStudentManager
      [OpRegister ''A12345'' ''Twin'' ''TI'', OpRegister ''Z00000'' ''New Student'' ''SI'',
       OpModifyStudent ''Dito'' ''MI'', OpLogin ''A12345'' ''Aditira'',
       OpImportStudents (\<lambda>f. Inr [Inr [''Z00000'', ''Again'', ''TI'']]) [''a.csv'']
         (\<lambda>bs. bs)]))
     = [''A12345'', ''B21313'', ''A34555'', ''Z00000'']"
    by (simp add: run_operations_def NewInMemoryStudentManager_def Register_def
          Register_check_def Register_append_def ModifyStudent_def ChangeStudyProgram_def
          Login_def locked_out_def ImportStudents_def ReadStudentsFromCSV_def)
  show "distinct (map ID (students (run_operations NewInMemoryStudentManager
      [OpRegister ''A12345'' ''Twin'' ''TI'', OpRegister ''Z00000'' ''New Student'' ''SI'',
       OpModifyStudent ''Dito'' ''MI'', OpLogin ''A12345'' ''Aditira'',
       OpImportStudents (\<lambda>f. Inr [Inr [''Z00000'', ''Again'', ''TI'']]) [''a.csv'']
         (\<lambda>bs. bs)])))"
    by (rule ID_unique_invariant)
qed

lemma locked_out_cong:
  "failedLoginAttempts sm' ident = failedLoginAttempts sm ident \<Longrightarrow>
     locked_out sm' ident = locked_out sm ident"
  by (simp add: locked_out_def)

lemma Login_keeps_locked:
  assumes "locked_out sm ident"
  shows "locked_out (fst (Login sm i n)) ident"
proof (cases "i = ident")
  case True
  from assms have "fst (Login sm ident n) = sm"
    by (intro Login_rejected_unchanged) blast
  with assms True show ?thesis by (simp only:)
next
  case False
  then have "ident \<noteq> i" by blast
  with Login_frame [of sm i n]
  have "failedLoginAttempts (fst (Login sm i n)) ident = failedLoginAttempts sm ident"
    by blast
  then have "locked_out (fst (Login sm i n)) ident = locked_out sm ident"
    by (rule locked_out_cong)
  with assms show ?thesis by (simp only:)
qed

lemma apply_operation_locked:
  assumes "locked_out sm ident"
  shows "locked_out (apply_operation sm op) ident"
proof (cases op)
  case (OpLogin i n)
  from assms have "locked_out (fst (Login sm i n)) ident" by (rule Login_keeps_locked)
  with OpLogin show ?thesis by (simp only: apply_operation.simps)
next
  case (OpRegister i n p)
  from Register_attempts [of sm i n p]
  have "locked_out (fst (Register sm i n p)) ident = locked_out sm ident"
    by (intro locked_out_cong) (simp only:)
  with assms OpRegister show ?thesis by (simp only: apply_operation.simps)
next
  case (OpGetStudyProgram code)
  with assms show ?thesis by (simp only: apply_operation.simps)
next
  case (OpModifyStudent name code)
  from ModifyStudent_attempts [of sm name "ChangeStudyProgram sm code"]
  have "locked_out (fst (ModifyStudent sm name (ChangeStudyProgram sm code))) ident
          = locked_out sm ident"
    by (intro locked_out_cong) (simp only:)
  with assms OpModifyStudent show ?thesis by (simp only: apply_operation.simps)
next
  case (OpImportStudents fs filenames arrival)
  from ImportStudents_consume_attempts [of sm "arrival (sent_batches fs filenames)"]
  have "locked_out (fst (ImportStudents sm fs filenames arrival)) ident = locked_out sm ident"
    unfolding ImportStudents_def by (intro locked_out_cong) (simp only:)
  with assms OpImportStudents show ?thesis by (simp only: apply_operation.simps)
next
  case (OpSubmitAssignments n)
  with assms show ?thesis by (simp only: apply_operation.simps)
next
  case OpGetStudents
  with assms show ?thesis by (simp only: apply_operation.simps)
qed

lemma run_operations_locked:
  "locked_out sm ident \<Longrightarrow> locked_out (run_operations sm ops) ident"
  unfolding run_operations_def
  by (induction ops arbitrary: sm) (simp_all add: apply_operation_locked)

text \<open>
  Claim C1 as stated fails for the empty name: after three failed logins \<open>A12345\<close> is
  locked out, and \<open>Login("A12345", "")\<close> does not return the lockout error.
\<close>

theorem Login_locked_empty_name_counterexample:
  "locked_out
     (run_operations NewInMemoryStudentManager
        [OpLogin ''A12345'' ''WrongName'', OpLogin ''A12345'' ''WrongName'',
         OpLogin ''A12345'' ''WrongName''])
     ''A12345'' \<and>
   snd (Login
     (run_operations NewInMemoryStudentManager
        [OpLogin ''A12345'' ''WrongName'', OpLogin ''A12345'' ''WrongName'',
         OpLogin ''A12345'' ''WrongName''])
     ''A12345'' []) \<noteq> Inl ''Login gagal: Batas maksimum login terlampaui''"
  by (simp add: run_operations_def Login_def locked_out_def increment_def attempts_of_def
        NewInMemoryStudentManager_def)

text \<open>
  Claim C1, as the code has it. An id that is locked out (its counter exists and is at
  least 3) stays locked out through every sequence of operations, and \<open>Login\<close> with this
  id and any non-empty name, right or wrong, returns the lockout error and changes
  nothing. The id and the name have to be non-empty: the checks of the empty fields come
  first, and a call with an empty name gets their error instead.
\<close>

theorem Login_lockout_permanent:
  assumes "locked_out sm ident" and "ident \<noteq> []" and "name \<noteq> []"
  shows "locked_out (run_operations sm ops) ident \<and>
         Login (run_operations sm ops) ident name =
           (run_operations sm ops, Inl ''Login gagal: Batas maksimum login terlampaui'')"
proof -
  from assms(1) have l: "locked_out (run_operations sm ops) ident"
    by (rule run_operations_locked)
  with assms(2,3) show ?thesis by (simp add: Login_locked)
qed

theorem Login_lockout_permanent_witness:
  "snd (Login
     (run_operations
        (run_operations NewInMemoryStudentManager
           [OpLogin ''A12345'' ''WrongName'', OpLogin ''A12345'' ''WrongName'',
            OpLogin ''A12345'' ''WrongName''])
        [OpLogin ''B21313'' ''Dito'', OpRegister ''Z00000'' ''New Student'' ''SI'',
         OpLogin ''A12345'' ''Aditira''])
     ''A12345'' ''Aditira'') = Inl ''Login gagal: Batas maksimum login terlampaui''"
proof -
  have "locked_out
     (run_operations NewInMemoryStudentManager
        [OpLogin ''A12345'' ''WrongName'', OpLogin ''A12345'' ''WrongName'',
         OpLogin ''A12345'' ''WrongName''])
     ''A12345''"
    by (simp add: run_operations_def Login_def locked_out_def increment_def attempts_of_def
        NewInMemoryStudentManager_def)
  from Login_lockout_permanent [OF this, of "''Aditira''"] show ?thesis by simp
qed

section \<open>ImportStudents\<close>

lemma ReadStudentsFromCSV_loop_malformed:
  "\<exists>row \<in> set rows. (case row of Inl e \<Rightarrow> True | Inr cols \<Rightarrow> length cols \<noteq> 3) \<Longrightarrow>
     isl (ReadStudentsFromCSV_loop rows batch)"
proof (induction rows arbitrary: batch)
  case Nil
  then show ?case by simp
next
  case (Cons row rest)
  show ?case
  proof (cases row)
    case (Inl e)
    then show ?thesis by simp
  next
    case (Inr cols)
    show ?thesis
    proof (cases "length cols = 3")
      case True
      with Inr Cons.prems
      have "\<exists>row \<in> set rest. (case row of Inl e \<Rightarrow> True | Inr cols \<Rightarrow> length cols \<noteq> 3)"
        by simp
      then have "isl (ReadStudentsFromCSV_loop rest
          (batch @ [\<lparr> ID = cols ! 0, Name = cols ! 1, StudyProgram = cols ! 2 \<rparr>]))"
        by (rule Cons.IH)
      with Inr True show ?thesis by simp
    next
      case False
      with Inr show ?thesis by simp
    qed
  qed
qed

lemma sent_batches_append:
  "sent_batches fs (xs @ ys) = sent_batches fs xs @ sent_batches fs ys"
  by (induction xs) (simp_all split: sum.splits)

lemma sent_batches_failed:
  "isl (ReadStudentsFromCSV fs f) \<Longrightarrow> sent_batches fs (xs @ f # ys) = sent_batches fs (xs @ ys)"
  by (cases "ReadStudentsFromCSV fs f") (simp_all add: sent_batches_append)

lemma sent_batches_all_failed:
  "\<forall>f \<in> set filenames. isl (ReadStudentsFromCSV fs f) \<Longrightarrow> sent_batches fs filenames = []"
  by (induction filenames) (auto split: sum.splits)

lemma ImportStudents_batch_append:
  "ImportStudents_batch sm (xs @ ys) =
     (case ImportStudents_batch sm xs of
        (sm', Some err) \<Rightarrow> (sm', Some err)
      | (sm', None) \<Rightarrow> ImportStudents_batch sm' ys)"
  by (induction xs arbitrary: sm) (simp_all split: prod.splits sum.splits option.splits)

lemma ImportStudents_consume_concat:
  "ImportStudents_consume sm batches = ImportStudents_batch sm (concat batches)"
  by (induction batches arbitrary: sm)
     (simp_all add: ImportStudents_batch_append split: prod.splits option.splits)

lemma Student_eta: "\<lparr> ID = ID s, Name = Name s, StudyProgram = StudyProgram s \<rparr> = s"
  by (cases s) simp

lemma ImportStudents_batch_registered:
  "ImportStudents_batch sm xs = (sm', None) \<Longrightarrow> sm' = sm\<lparr>students := students sm @ xs\<rparr>"
proof (induction xs arbitrary: sm)
  case Nil
  then show ?case by simp
next
  case (Cons student rest)
  obtain sm1 r where reg: "Register sm (ID student) (Name student) (StudyProgram student) = (sm1, r)"
    by (cases "Register sm (ID student) (Name student) (StudyProgram student)")
  show ?case
  proof (cases r)
    case (Inl err)
    with reg Cons.prems show ?thesis by simp
  next
    case (Inr msg)
    with reg Register_success [of sm "ID student" "Name student" "StudyProgram student" sm1 msg]
    have sm1: "sm1 = sm\<lparr>students := students sm @ [student]\<rparr>"
      by (simp add: Student_eta)
    from Inr reg Cons.prems have "ImportStudents_batch sm1 rest = (sm', None)" by simp
    then have "sm' = sm1\<lparr>students := students sm1 @ rest\<rparr>" by (rule Cons.IH)
    with sm1 show ?thesis by simp
  qed
qed

lemma ImportStudents_batch_first_failure:
  "ImportStudents_batch sm xs = (sm', Some err) \<Longrightarrow>
     \<exists>pre student post.
       xs = pre @ student # post \<and> ImportStudents_batch sm pre = (sm', None) \<and>
       Register sm' (ID student) (Name student) (StudyProgram student) = (sm', Inl err)"
proof (induction xs arbitrary: sm)
  case Nil
  then show ?case by simp
next
  case (Cons student rest)
  obtain sm1 r where reg: "Register sm (ID student) (Name student) (StudyProgram student) = (sm1, r)"
    by (cases "Register sm (ID student) (Name student) (StudyProgram student)")
  show ?case
  proof (cases r)
    case (Inl e)
    with reg Cons.prems have e: "e = err" and s: "sm1 = sm'" by simp_all
    from reg Inl have "sm1 = sm" by (simp add: Register_fail_unchanged)
    with s e reg Inl
    have "student # rest = [] @ student # rest \<and> ImportStudents_batch sm [] = (sm', None) \<and>
       Register sm' (ID student) (Name student) (StudyProgram student) = (sm', Inl err)"
      by simp
    then show ?thesis by blast
  next
    case (Inr msg)
    with reg Cons.prems have "ImportStudents_batch sm1 rest = (sm', Some err)" by simp
    from Cons.IH [OF this] obtain pre s post where
      p: "rest = pre @ s # post" "ImportStudents_batch sm1 pre = (sm', None)"
         "Register sm' (ID s) (Name s) (StudyProgram s) = (sm', Inl err)"
      by blast
    from reg Inr p(2) have "ImportStudents_batch sm (student # pre) = (sm', None)" by simp
    with p(1,3) have "student # rest = (student # pre) @ s # post \<and>
       ImportStudents_batch sm (student # pre) = (sm', None) \<and>
       Register sm' (ID s) (Name s) (StudyProgram s) = (sm', Inl err)"
      by simp
    then show ?thesis by blast
  qed
qed

lemma ImportStudents_batch_abort:
  assumes "ImportStudents_batch sm pre = (sm1, None)"
    and "snd (Register sm1 (ID student) (Name student) (StudyProgram student)) = Inl err"
  shows "ImportStudents_batch sm (pre @ student # post) = (sm1, Some err)"
proof -
  obtain sm2 where "Register sm1 (ID student) (Name student) (StudyProgram student) = (sm2, Inl err)"
    using assms(2) by (cases "Register sm1 (ID student) (Name student) (StudyProgram student)") simp
  moreover from this have "sm2 = sm1" by (rule Register_fail_unchanged)
  ultimately show ?thesis using assms(1) by (simp add: ImportStudents_batch_append)
qed

text \<open>
  Claim C7. A file that fails to open, or one of whose rows is an error of the reader or
  has not three fields, makes \<open>ReadStudentsFromCSV\<close> fail; \<open>ImportStudents\<close> then behaves,
  in the manager it returns and in the error it returns, as if that file name were not in
  the list; when every read fails it returns nil and the manager as it was. When the
  students received are \<open>pre\<close>, then \<open>student\<close>, then \<open>post\<close>, those of \<open>pre\<close> are all
  registered and \<open>Register\<close> fails for \<open>student\<close>, \<open>ImportStudents\<close> returns that error, and
  the manager it returns holds the students of \<open>pre\<close> after the former ones. Any error
  \<open>ImportStudents\<close> returns is the error of such a first failing \<open>Register\<close>.
\<close>

theorem ImportStudents_failure_policy:
  "(fs f = Inl e \<longrightarrow> ReadStudentsFromCSV fs f = Inl e) \<and>
   (fs f = Inr rows \<and>
    (\<exists>row \<in> set rows. case row of Inl e \<Rightarrow> True | Inr cols \<Rightarrow> length cols \<noteq> 3) \<longrightarrow>
      isl (ReadStudentsFromCSV fs f)) \<and>
   (isl (ReadStudentsFromCSV fs f) \<longrightarrow>
      ImportStudents sm fs (before @ f # after) arrival =
        ImportStudents sm fs (before @ after) arrival) \<and>
   ((\<forall>f \<in> set filenames. isl (ReadStudentsFromCSV fs f)) \<and> arrival [] = [] \<longrightarrow>
      ImportStudents sm fs filenames arrival = (sm, None)) \<and>
   (concat (arrival (sent_batches fs filenames)) = pre @ student # post \<and>
    ImportStudents_batch sm pre = (sm1, None) \<and>
    snd (Register sm1 (ID student) (Name student) (StudyProgram student)) = Inl err \<longrightarrow>
      ImportStudents sm fs filenames arrival =
        (sm\<lparr>students := students sm @ pre\<rparr>, Some err)) \<and>
   (ImportStudents sm fs filenames arrival = (sm', Some err') \<longrightarrow>
      (\<exists>pre student post.
         concat (arrival (sent_batches fs filenames)) = pre @ student # post \<and>
         sm' = sm\<lparr>students := students sm @ pre\<rparr> \<and>
         Register sm' (ID student) (Name student) (StudyProgram student) = (sm', Inl err')))"
proof (intro conjI impI)
  assume "fs f = Inl e"
  then show "ReadStudentsFromCSV fs f = Inl e" by (simp add: ReadStudentsFromCSV_def)
next
  assume "fs f = Inr rows \<and>
    (\<exists>row \<in> set rows. case row of Inl e \<Rightarrow> True | Inr cols \<Rightarrow> length cols \<noteq> 3)"
  then show "isl (ReadStudentsFromCSV fs f)"
    by (simp add: ReadStudentsFromCSV_def ReadStudentsFromCSV_loop_malformed)
next
  assume "isl (ReadStudentsFromCSV fs f)"
  then show "ImportStudents sm fs (before @ f # after) arrival =
        ImportStudents sm fs (before @ after) arrival"
    by (simp add: ImportStudents_def sent_batches_failed)
next
  assume "(\<forall>f \<in> set filenames. isl (ReadStudentsFromCSV fs f)) \<and> arrival [] = []"
  then show "ImportStudents sm fs filenames arrival = (sm, None)"
    by (simp add: ImportStudents_def sent_batches_all_failed)
next
  assume a: "concat (arrival (sent_batches fs filenames)) = pre @ student # post \<and>
    ImportStudents_batch sm pre = (sm1, None) \<and>
    snd (Register sm1 (ID student) (Name student) (StudyProgram student)) = Inl err"
  then have "sm1 = sm\<lparr>students := students sm @ pre\<rparr>"
    by (simp add: ImportStudents_batch_registered)
  moreover from a have "ImportStudents_batch sm (pre @ student # post) = (sm1, Some err)"
    by (simp add: ImportStudents_batch_abort)
  ultimately show "ImportStudents sm fs filenames arrival =
        (sm\<lparr>students := students sm @ pre\<rparr>, Some err)"
    using a by (simp add: ImportStudents_def ImportStudents_consume_concat)
next
  assume "ImportStudents sm fs filenames arrival = (sm', Some err')"
  then have "ImportStudents_batch sm (concat (arrival (sent_batches fs filenames)))
               = (sm', Some err')"
    by (simp add: ImportStudents_def ImportStudents_consume_concat)
  from ImportStudents_batch_first_failure [OF this] obtain pre student post where
    p: "concat (arrival (sent_batches fs filenames)) = pre @ student # post"
       "ImportStudents_batch sm pre = (sm', None)"
       "Register sm' (ID student) (Name student) (StudyProgram student) = (sm', Inl err')"
    by blast
  from p(2) have "sm' = sm\<lparr>students := students sm @ pre\<rparr>"
    by (rule ImportStudents_batch_registered)
  with p(1,3) show "\<exists>pre student post.
         concat (arrival (sent_batches fs filenames)) = pre @ student # post \<and>
         sm' = sm\<lparr>students := students sm @ pre\<rparr> \<and>
         Register sm' (ID student) (Name student) (StudyProgram student) = (sm', Inl err')"
    by blast
qed

theorem ImportStudents_failure_policy_witness:
  "ImportStudents NewInMemoryStudentManager
     (\<lambda>f. if f = ''good.csv'' then
            Inr [Inr [''Z00001'', ''Zed'', ''TI''], Inr [''B21313'', ''Dup'', ''TK''],
                 Inr [''Z00002'', ''Zwei'', ''SI'']]
          else if f = ''bad.csv'' then Inr [Inr [''Y00001'', ''Why'', ''TI''], Inr [''only'', ''two'']]
          else Inl ''open: no such file'')
     [''bad.csv'', ''good.csv''] (\<lambda>bs. bs) =
     (NewInMemoryStudentManager\<lparr>students :=
        students NewInMemoryStudentManager
          @ [\<lparr> ID = ''Z00001'', Name = ''Zed'', StudyProgram = ''TI'' \<rparr>]\<rparr>,
      Some ''Registrasi gagal: id sudah digunakan'')"
proof -
  let ?fs = "\<lambda>f. if f = ''good.csv'' then
            Inr [Inr [''Z00001'', ''Zed'', ''TI''], Inr [''B21313'', ''Dup'', ''TK''],
                 Inr [''Z00002'', ''Zwei'', ''SI'']]
          else if f = ''bad.csv'' then Inr [Inr [''Y00001'', ''Why'', ''TI''], Inr [''only'', ''two'']]
          else Inl ''open: no such file''"
  let ?zed = "\<lparr> ID = ''Z00001'', Name = ''Zed'', StudyProgram = ''TI'' \<rparr>"
  let ?dup = "\<lparr> ID = ''B21313'', Name = ''Dup'', StudyProgram = ''TK'' \<rparr>"
  let ?zwei = "\<lparr> ID = ''Z00002'', Name = ''Zwei'', StudyProgram = ''SI'' \<rparr>"
  note policy = ImportStudents_failure_policy
    [where fs = ?fs and f = "''bad.csv''" and sm = NewInMemoryStudentManager
       and before = "[]" and after = "[''good.csv'']" and arrival = "\<lambda>bs. bs"
       and rows = "[Inr [''Y00001'', ''Why'', ''TI''], Inr [''only'', ''two'']]"
       and filenames = "[''good.csv'']" and pre = "[?zed]" and student = ?dup
       and post = "[?zwei]"
       and ?sm1.0 = "NewInMemoryStudentManager\<lparr>students :=
                       students NewInMemoryStudentManager @ [?zed]\<rparr>"
       and err = "''Registrasi gagal: id sudah digunakan''"]
  have bad: "isl (ReadStudentsFromCSV ?fs ''bad.csv'')"
    using policy by simp
  have sent: "sent_batches ?fs [''good.csv''] = [[?zed, ?dup, ?zwei]]"
    by (simp add: ReadStudentsFromCSV_def)
  have pre: "ImportStudents_batch NewInMemoryStudentManager [?zed] =
     (NewInMemoryStudentManager\<lparr>students := students NewInMemoryStudentManager @ [?zed]\<rparr>, None)"
    by (simp add: Register_def Register_check_def Register_append_def
          NewInMemoryStudentManager_def)
  have dup: "snd (Register
     (NewInMemoryStudentManager\<lparr>students := students NewInMemoryStudentManager @ [?zed]\<rparr>)
     (ID ?dup) (Name ?dup) (StudyProgram ?dup)) = Inl ''Registrasi gagal: id sudah digunakan''"
    by (simp add: Register_def Register_check_def NewInMemoryStudentManager_def)
  from policy bad have "ImportStudents NewInMemoryStudentManager ?fs [''bad.csv'', ''good.csv'']
      (\<lambda>bs. bs) = ImportStudents NewInMemoryStudentManager ?fs [''good.csv''] (\<lambda>bs. bs)"
    by simp
  also from policy sent pre dup
  have "ImportStudents NewInMemoryStudentManager ?fs [''good.csv''] (\<lambda>bs. bs) =
     (NewInMemoryStudentManager\<lparr>students := students NewInMemoryStudentManager @ [?zed]\<rparr>,
      Some ''Registrasi gagal: id sudah digunakan'')"
    by simp
  finally show ?thesis .
qed

section \<open>SubmitAssignments: the worker pool\<close>

lemma sum_list_map_update:
  "k < length ws \<Longrightarrow>
     sum_list (map f (ws[k := v])) + f (ws ! k) = sum_list (map f ws) + (f v :: nat)"
proof (induction ws arbitrary: k)
  case Nil
  then show ?case by simp
next
  case (Cons w ws)
  then show ?case by (cases k) auto
qed

lemma holding_update:
  "k < length ws \<Longrightarrow>
     mset (concat (map holding (ws[k := v]))) + mset (holding (ws ! k))
       = mset (concat (map holding ws)) + mset (holding v)"
proof (induction ws arbitrary: k)
  case Nil
  then show ?case by simp
next
  case (Cons w ws)
  then show ?case by (cases k) auto
qed

lemma upto_snoc: "1 \<le> i \<Longrightarrow> mset [1..i] = add_mset i (mset [1..i - 1])"
  by (simp add: upto_rec2)

lemma start_inv: "SubmitAssignments_start n = Some s \<Longrightarrow> pool_inv s"
  by (auto simp: SubmitAssignments_start_def pool_inv_def sent_so_far_def split: if_splits)

lemma start_steps:
  "SubmitAssignments_start n = Some s \<Longrightarrow> remaining_steps s = nat (4 * n + 7)"
  by (auto simp: SubmitAssignments_start_def remaining_steps_def sum_list_replicate
        nat_add_distrib nat_mult_distrib split: if_splits)

lemma step_Main_steps:
  "enabled Main s \<Longrightarrow> remaining_steps (step t Main s) + 1 = remaining_steps s"
proof (cases "main s")
  case (MainFill i)
  assume "enabled Main s"
  show ?thesis
  proof (cases "i \<le> numAssignments s")
    case True
    then have "nat (numAssignments s + 1 - i) = Suc (nat (numAssignments s + 1 - (i + 1)))"
      by simp
    with MainFill True show ?thesis by (simp add: remaining_steps_def)
  next
    case False
    then have "nat (numAssignments s + 1 - i) = 0" by simp
    with MainFill False show ?thesis by (simp add: remaining_steps_def)
  qed
next
  case MainCollect
  then show ?thesis by (simp add: remaining_steps_def)
next
  case MainDone
  assume "enabled Main s"
  with MainDone show ?thesis by simp
qed

lemma step_Worker_steps:
  assumes "enabled (Worker w) s"
  shows "remaining_steps (step t (Worker w) s) + 1 = remaining_steps s"
proof -
  from assms have k: "w - 1 < length (workers s)" by auto
  note upd = sum_list_map_update [OF k, where f = worker_steps]
  show ?thesis
  proof (cases "workers s ! (w - 1)")
    case Receiving
    show ?thesis
    proof (cases "jobs s")
      case Nil
      with Receiving upd [of Exited] show ?thesis by (simp add: remaining_steps_def)
    next
      case (Cons assignment rest)
      with Receiving upd [of "Processing assignment"] show ?thesis
        by (simp add: remaining_steps_def)
    qed
  next
    case (Processing assignment)
    with upd [of "Sending assignment"] show ?thesis by (simp add: remaining_steps_def)
  next
    case (Sending assignment)
    with upd [of Receiving] show ?thesis by (simp add: remaining_steps_def)
  next
    case Exited
    with assms show ?thesis by simp
  qed
qed

lemma step_steps: "enabled a s \<Longrightarrow> remaining_steps (step t a s) + 1 = remaining_steps s"
proof (cases a)
  case Main
  assume "enabled a s"
  with Main show ?thesis by (simp only: step_Main_steps)
next
  case (Worker w)
  assume "enabled a s"
  with Worker show ?thesis by (simp only: step_Worker_steps)
next
  case Closer
  assume "enabled a s"
  with Closer show ?thesis by (simp add: remaining_steps_def)
qed

lemma exec_steps:
  "exec t sched s = Some s' \<Longrightarrow> remaining_steps s' + length sched = remaining_steps s"
proof (induction sched arbitrary: s)
  case Nil
  then show ?case by simp
next
  case (Cons a sched)
  from Cons.prems have e: "enabled a s" and r: "exec t sched (step t a s) = Some s'"
    by (simp_all split: if_splits)
  from Cons.IH [OF r] step_steps [OF e, of t] show ?case by simp
qed

lemma step_Main_inv:
  assumes "pool_inv s" and "enabled Main s"
  shows "pool_inv (step t Main s)"
proof (cases "main s")
  case (MainFill i)
  show ?thesis
  proof (cases "i \<le> numAssignments s")
    case True
    from assms(1) MainFill have i: "1 \<le> i" by (simp add: pool_inv_def)
    from upto_snoc [OF i] have "mset [1..i] = add_mset i (mset [1..i - 1])" .
    with assms(1) MainFill True show ?thesis
      by (auto simp: pool_inv_def sent_so_far_def)
  next
    case False
    with assms(1) MainFill have "i = numAssignments s + 1" by (simp add: pool_inv_def)
    with assms(1) MainFill False show ?thesis
      by (auto simp: pool_inv_def sent_so_far_def)
  qed
next
  case MainCollect
  with assms show ?thesis by (auto simp: pool_inv_def sent_so_far_def)
next
  case MainDone
  with assms show ?thesis by simp
qed

lemma step_Closer_inv:
  assumes "pool_inv s" and "enabled Closer s"
  shows "pool_inv (step t Closer s)"
  using assms by (cases "main s") (auto simp: pool_inv_def sent_so_far_def list_all_iff)

lemma in_set_updateD: "x \<in> set (ws[k := v]) \<Longrightarrow> x = v \<or> x \<in> set ws"
  using set_update_subset_insert [of ws k v] by auto

lemma step_Worker_inv:
  assumes inv: "pool_inv s" and en: "enabled (Worker w) s"
  shows "pool_inv (step t (Worker w) s)"
proof -
  from en have k: "w - 1 < length (workers s)" by auto
  then have mem: "workers s ! (w - 1) \<in> set (workers s)" by simp
  from en have ne: "workers s ! (w - 1) \<noteq> Exited" by auto
  with mem inv have open_results: "\<not> results_closed s" by (auto simp: pool_inv_def)
  note h = holding_update [OF k]
  note c = sum_list_map_update [OF k, where f = sending_count]
  show ?thesis
  proof (cases "workers s ! (w - 1)")
    case Receiving
    show ?thesis
    proof (cases "jobs s")
      case Nil
      with en Receiving have "jobs_closed s" by simp
      with inv open_results Receiving Nil k h [of Exited] c [of Exited] show ?thesis
        by (auto simp: pool_inv_def sent_so_far_def split: main_pc.splits)
    next
      case (Cons assignment rest)
      with inv have "Exited \<notin> set (workers s)" by (auto simp: pool_inv_def)
      then have "Exited \<notin> set ((workers s)[w - 1 := Processing assignment])"
        by (auto dest: in_set_updateD)
      with inv open_results Receiving Cons k h [of "Processing assignment"]
        c [of "Processing assignment"]
      show ?thesis
        by (auto simp: pool_inv_def sent_so_far_def split: main_pc.splits)
    qed
  next
    case (Processing assignment)
    have "Exited \<in> set ((workers s)[w - 1 := Sending assignment]) \<Longrightarrow> Exited \<in> set (workers s)"
      by (auto dest: in_set_updateD)
    with inv open_results Processing k h [of "Sending assignment"] c [of "Sending assignment"]
    show ?thesis
      by (auto simp: pool_inv_def sent_so_far_def split: main_pc.splits)
  next
    case (Sending assignment)
    have "Exited \<in> set ((workers s)[w - 1 := Receiving]) \<Longrightarrow> Exited \<in> set (workers s)"
      by (auto dest: in_set_updateD)
    with inv open_results Sending k h [of Receiving, symmetric] c [of Receiving, symmetric]
    show ?thesis
      by (auto simp: pool_inv_def sent_so_far_def split: main_pc.splits)
  next
    case Exited
    with ne show ?thesis by simp
  qed
qed

lemma step_inv: "pool_inv s \<Longrightarrow> enabled a s \<Longrightarrow> pool_inv (step t a s)"
  by (cases a) (simp_all only: step_Main_inv step_Worker_inv step_Closer_inv)

lemma exec_inv: "pool_inv s \<Longrightarrow> exec t sched s = Some s' \<Longrightarrow> pool_inv s'"
proof (induction sched arbitrary: s)
  case Nil
  then show ?case by simp
next
  case (Cons a sched)
  from Cons.prems(2) have e: "enabled a s" and r: "exec t sched (step t a s) = Some s'"
    by (simp_all split: if_splits)
  from Cons.prems(1) e have "pool_inv (step t a s)" by (rule step_inv)
  from Cons.IH [OF this r] show ?case .
qed

lemma all_Exited_holding:
  "\<forall>w \<in> set ws. w = Exited \<Longrightarrow>
     concat (map holding ws) = [] \<and> sum_list (map sending_count ws) = 0"
  by (induction ws) auto

lemma no_holding_no_sending:
  "concat (map holding ws) = [] \<Longrightarrow> sum_list (map sending_count ws) = 0"
proof (induction ws)
  case Nil
  then show ?case by simp
next
  case (Cons w ws)
  then show ?case by (cases w) auto
qed

lemma done_results:
  assumes "pool_inv s" and "main s = MainDone"
  shows "mset (map snd (printed s)) = mset [1..numAssignments s] \<and>
         length (printed s) = nat (numAssignments s) \<and>
         processed s = nat (numAssignments s)"
proof -
  from assms have ex: "\<forall>w \<in> set (workers s). w = Exited"
    by (simp add: pool_inv_def)
  from assms have "workers s \<noteq> []" by (simp add: pool_inv_def)
  with ex have "Exited \<in> set (workers s)" by (cases "workers s") auto
  with assms have j: "jobs s = []" by (simp add: pool_inv_def)
  from ex all_Exited_holding [of "workers s"]
  have h: "concat (map holding (workers s)) = []"
    and c: "sum_list (map sending_count (workers s)) = 0" by simp_all
  from assms j h have m: "mset (map snd (printed s)) = mset [1..numAssignments s]"
    by (simp add: pool_inv_def sent_so_far_def)
  then have "size (mset (map snd (printed s))) = size (mset [1..numAssignments s])"
    by (simp only:)
  then have l: "length (printed s) = nat (numAssignments s)" by simp
  from assms c l have "processed s = nat (numAssignments s)" by (simp add: pool_inv_def)
  with m l show ?thesis by simp
qed

lemma no_work_without_jobs:
  assumes "pool_inv s" and "numAssignments s = 0"
  shows "printed s = [] \<and> processed s = 0"
proof -
  from assms have "sent_so_far s \<le> 0"
    by (auto simp: pool_inv_def sent_so_far_def split: main_pc.splits)
  then have "mset [1..sent_so_far s] = {#}" by simp
  with assms(1) have p: "printed s = []" and h: "concat (map holding (workers s)) = []"
    by (simp_all add: pool_inv_def)
  from h have "sum_list (map sending_count (workers s)) = 0" by (rule no_holding_no_sending)
  with assms(1) p show ?thesis by (simp add: pool_inv_def)
qed

lemma buffer_has_room:
  assumes "pool_inv s" and "main s = MainFill i" and "i \<le> numAssignments s"
  shows "int (length (jobs s)) < numAssignments s"
proof -
  from assms have "mset (map snd (printed s)) + mset (concat (map holding (workers s)))
      + mset (jobs s) = mset [1..i - 1]" and i: "1 \<le> i"
    by (simp_all add: pool_inv_def sent_so_far_def)
  then have "size (mset (map snd (printed s)) + mset (concat (map holding (workers s)))
      + mset (jobs s)) = size (mset [1..i - 1])"
    by (simp only:)
  then have "length (jobs s) \<le> nat (i - 1)" by simp
  with i assms(3) show ?thesis by linarith
qed

lemma no_deadlock:
  assumes "pool_inv s" and "main s \<noteq> MainDone"
  shows "\<exists>a. enabled a s"
proof (cases "main s")
  case (MainFill i)
  show ?thesis
  proof (cases "i \<le> numAssignments s")
    case True
    from buffer_has_room [OF assms(1) MainFill True] MainFill True
    have "enabled Main s" by simp
    then show ?thesis ..
  next
    case False
    with MainFill have "enabled Main s" by simp
    then show ?thesis ..
  qed
next
  case MainCollect
  show ?thesis
  proof (cases "results_closed s")
    case True
    with MainCollect have "enabled Main s" by simp
    then show ?thesis ..
  next
    case False
    show ?thesis
    proof (cases "\<forall>w \<in> set (workers s). w = Exited")
      case True
      with False MainCollect have "enabled Closer s" by (simp add: list_all_iff)
      then show ?thesis ..
    next
      case False
      then obtain k where k: "k < length (workers s)" "workers s ! k \<noteq> Exited"
        by (auto simp: in_set_conv_nth)
      from assms(1) MainCollect have "jobs_closed s" by (simp add: pool_inv_def)
      with k MainCollect have "enabled (Worker (Suc k)) s"
        by (cases "workers s ! k") simp_all
      then show ?thesis ..
    qed
  qed
next
  case MainDone
  with assms(2) show ?thesis by simp
qed

lemma exec_append:
  "exec t (xs @ ys) s = (case exec t xs s of None \<Rightarrow> None | Some s' \<Rightarrow> exec t ys s')"
  by (induction xs arbitrary: s) simp_all

lemma can_finish:
  "pool_inv s \<Longrightarrow> \<exists>sched s'. exec t sched s = Some s' \<and> main s' = MainDone"
proof (induction "remaining_steps s" arbitrary: s rule: less_induct)
  case less
  show ?case
  proof (cases "main s = MainDone")
    case True
    then have "exec t [] s = Some s \<and> main s = MainDone" by simp
    then show ?thesis by blast
  next
    case False
    with less.prems obtain a where a: "enabled a s" using no_deadlock by blast
    from step_steps [OF a, of t] have "remaining_steps (step t a s) < remaining_steps s"
      by simp
    moreover from less.prems a have "pool_inv (step t a s)" by (rule step_inv)
    ultimately obtain sched s' where
      r: "exec t sched (step t a s) = Some s'" "main s' = MainDone"
      using less.hyps by blast
    with a have "exec t (a # sched) s = Some s' \<and> main s' = MainDone" by simp
    then show ?thesis by blast
  qed
qed

lemma step_numAssignments: "numAssignments (step t a s) = numAssignments s"
proof (cases a)
  case Main
  then show ?thesis by (cases "main s") simp_all
next
  case (Worker w)
  then show ?thesis
    by (cases "workers s ! (w - 1)") (simp_all split: list.splits)
next
  case Closer
  then show ?thesis by simp
qed

lemma exec_numAssignments:
  "exec t sched s = Some s' \<Longrightarrow> numAssignments s' = numAssignments s"
  by (induction sched arbitrary: s) (auto simp: step_numAssignments split: if_splits)

lemma enabled_report: "enabled a (s\<lparr>report := r\<rparr>) = enabled a s"
  by (cases a) (simp_all split: main_pc.splits worker.splits)

lemma step_report:
  "step t' a (s\<lparr>report := r\<rparr>) =
     (step t a s)\<lparr>report :=
        (if a = Main \<and> main s = MainCollect then timing_report (numAssignments s) t' else r)\<rparr>"
proof (cases a)
  case Main
  then show ?thesis by (cases "main s") simp_all
next
  case (Worker w)
  then show ?thesis
    by (cases "workers s ! (w - 1)") (simp_all split: list.splits)
next
  case Closer
  then show ?thesis by simp
qed

lemma exec_report:
  "exec t sched s = Some s' \<Longrightarrow> \<exists>r'. exec t' sched (s\<lparr>report := r\<rparr>) = Some (s'\<lparr>report := r'\<rparr>)"
proof (induction sched arbitrary: s r)
  case Nil
  then show ?case by auto
next
  case (Cons a sched)
  from Cons.prems have e: "enabled a s" and x: "exec t sched (step t a s) = Some s'"
    by (simp_all split: if_splits)
  from step_report [where t = t and t' = t' and a = a and s = s and r = r] obtain r1 where
    r1: "step t' a (s\<lparr>report := r\<rparr>) = (step t a s)\<lparr>report := r1\<rparr>" by blast
  from Cons.IH [OF x, of r1] obtain r' where
    "exec t' sched ((step t a s)\<lparr>report := r1\<rparr>) = Some (s'\<lparr>report := r'\<rparr>)" by blast
  with e r1 have "exec t' (a # sched) (s\<lparr>report := r\<rparr>) = Some (s'\<lparr>report := r'\<rparr>)"
    by (simp add: enabled_report)
  then show ?case by blast
qed

lemma exec_timing:
  assumes "exec t sched s = Some s'"
  shows "map_option printed (exec t' sched s) = Some (printed s')"
proof -
  from exec_report [OF assms, of t' "report s"] obtain r' where
    "exec t' sched (s\<lparr>report := report s\<rparr>) = Some (s'\<lparr>report := r'\<rparr>)" by blast
  then show ?thesis by simp
qed

lemma step_report_inv: "report_inv t s \<Longrightarrow> enabled a s \<Longrightarrow> report_inv t (step t a s)"
proof (cases a)
  case Main
  assume "report_inv t s" "enabled a s"
  with Main show ?thesis by (cases "main s") (auto simp: report_inv_def)
next
  case (Worker w)
  assume "report_inv t s" "enabled a s"
  with Worker show ?thesis
    by (cases "workers s ! (w - 1)") (auto simp: report_inv_def split: list.splits)
next
  case Closer
  assume "report_inv t s" "enabled a s"
  with Closer show ?thesis by (auto simp: report_inv_def)
qed

lemma exec_report_inv: "report_inv t s \<Longrightarrow> exec t sched s = Some s' \<Longrightarrow> report_inv t s'"
proof (induction sched arbitrary: s)
  case Nil
  then show ?case by simp
next
  case (Cons a sched)
  from Cons.prems(2) have e: "enabled a s" and r: "exec t sched (step t a s) = Some s'"
    by (simp_all split: if_splits)
  from Cons.prems(1) e have "report_inv t (step t a s)" by (rule step_report_inv)
  from Cons.IH [OF this r] show ?case .
qed

lemma start_report_inv: "SubmitAssignments_start n = Some s \<Longrightarrow> report_inv t s"
  by (auto simp: SubmitAssignments_start_def report_inv_def split: if_splits)

lemma start_numAssignments: "SubmitAssignments_start n = Some s \<Longrightarrow> numAssignments s = n"
  by (auto simp: SubmitAssignments_start_def split: if_splits)

lemma SubmitAssignments_Some:
  "SubmitAssignments n t sched = Some s \<longleftrightarrow>
     (\<exists>s0. SubmitAssignments_start n = Some s0 \<and> exec t sched s0 = Some s)"
  by (simp add: SubmitAssignments_def split: option.splits)

lemma replicate_4: "replicate 4 x = [x, x, x, x]"
  by (simp add: numeral_eq_Suc)

text \<open>
  Claim C8. For \<open>n \<ge> 0\<close>, whatever the time measured: \<open>SubmitAssignments(n)\<close> has a run to
  its end. Every run, under every schedule, takes at most \<open>4 n + 7\<close> steps, is never stuck
  before the end (some goroutine can step) and can be continued to the end. At the end
  exactly \<open>n\<close> results have been printed, one for each assignment \<open>1..n\<close> and none twice,
  \<open>SubmitAssignmentLongProcess\<close> has been called \<open>n\<close> times, and the output is the results
  followed by the lines of the timing. With \<open>n = 0\<close> no result is printed and
  \<open>SubmitAssignmentLongProcess\<close> is never called. The results printed under a schedule are
  the same for every time measured: the warnings change no result.
\<close>

theorem SubmitAssignments_results:
  assumes "0 \<le> n"
  shows "(\<exists>sched s. SubmitAssignments n t sched = Some s \<and> main s = MainDone) \<and>
         (\<forall>sched s. SubmitAssignments n t sched = Some s \<longrightarrow>
            length sched \<le> nat (4 * n + 7) \<and>
            (main s \<noteq> MainDone \<longrightarrow> (\<exists>a. enabled a s)) \<and>
            (\<exists>rest s'. SubmitAssignments n t (sched @ rest) = Some s' \<and> main s' = MainDone) \<and>
            (main s = MainDone \<longrightarrow>
               length (printed s) = nat n \<and> mset (map snd (printed s)) = mset [1..n] \<and>
               processed s = nat n \<and>
               stdout_lines s = map result_line (printed s) @ timing_report n t) \<and>
            (n = 0 \<longrightarrow> printed s = [] \<and> processed s = 0) \<and>
            map_option printed (SubmitAssignments n t' sched) = Some (printed s))"
proof (intro conjI allI impI)
  from assms obtain s0 where s0: "SubmitAssignments_start n = Some s0"
    by (simp add: SubmitAssignments_start_def)
  from can_finish [OF start_inv [OF s0], of t] s0
  show "\<exists>sched s. SubmitAssignments n t sched = Some s \<and> main s = MainDone"
    by (auto simp: SubmitAssignments_Some)
next
  fix sched s
  assume run: "SubmitAssignments n t sched = Some s"
  then obtain s0 where s0: "SubmitAssignments_start n = Some s0"
    and x: "exec t sched s0 = Some s"
    by (auto simp: SubmitAssignments_Some)
  from start_inv [OF s0] x have inv: "pool_inv s" by (rule exec_inv)
  from exec_numAssignments [OF x] start_numAssignments [OF s0]
  have n: "numAssignments s = n" by simp
  from exec_steps [OF x] start_steps [OF s0]
  show "length sched \<le> nat (4 * n + 7)" by simp
  show "\<exists>rest s'. SubmitAssignments n t (sched @ rest) = Some s' \<and> main s' = MainDone"
  proof -
    from can_finish [OF inv, of t] obtain rest s' where
      "exec t rest s = Some s'" "main s' = MainDone" by blast
    with s0 x have "SubmitAssignments n t (sched @ rest) = Some s' \<and> main s' = MainDone"
      by (simp add: SubmitAssignments_def exec_append)
    then show ?thesis by blast
  qed
  from exec_timing [OF x, of t'] s0
  show "map_option printed (SubmitAssignments n t' sched) = Some (printed s)"
    by (simp add: SubmitAssignments_def)
  {
    assume "main s \<noteq> MainDone"
    with inv show "\<exists>a. enabled a s" by (rule no_deadlock)
  }
  {
    assume d: "main s = MainDone"
    from done_results [OF inv d] n
    show "length (printed s) = nat n" and "mset (map snd (printed s)) = mset [1..n]"
      and "processed s = nat n" by simp_all
    from exec_report_inv [OF start_report_inv [OF s0] x] d n
    show "stdout_lines s = map result_line (printed s) @ timing_report n t"
      by (simp add: report_inv_def stdout_lines_def)
  }
  {
    assume "n = 0"
    with n no_work_without_jobs [OF inv]
    show "printed s = []" and "processed s = 0" by simp_all
  }
qed

theorem SubmitAssignments_results_witness:
  "map_option printed
     (SubmitAssignments 1 (200000000, ''200ms'')
        [Main, Main, Worker 2, Worker 2, Worker 2, Worker 1, Worker 2, Worker 3, Worker 4,
         Closer, Main]) = Some [(2, 1)] \<and>
   map_option stdout_lines
     (SubmitAssignments 1 (120000000, ''120ms'')
        [Main, Main, Worker 2, Worker 2, Worker 2, Worker 1, Worker 2, Worker 3, Worker 4,
         Closer, Main]) =
     Some [''Worker 2: Finished assignment 1'', ''Submitting 1 assignments took 120ms'']"
proof -
  let ?sched = "[Main, Main, Worker 2, Worker 2, Worker 2, Worker 1, Worker 2, Worker 3,
                 Worker 4, Closer, Main]"
  let ?final = "\<lparr> numAssignments = 1, main = MainDone, jobs = [], jobs_closed = True,
                  workers = [Exited, Exited, Exited, Exited], results_closed = True,
                  printed = [(2, 1)], processed = 1,
                  report = [''Submitting 1 assignments took 120ms''] \<rparr>"
  have run: "SubmitAssignments 1 (120000000, ''120ms'') ?sched = Some ?final"
    by (simp add: SubmitAssignments_def SubmitAssignments_start_def timing_report_def
          Sprint_d_def replicate_4)
  have "(0::int) \<le> 1" by simp
  from SubmitAssignments_results [OF this, of "(120000000, ''120ms'')" "(200000000, ''200ms'')"]
    run
  have "map_option printed (SubmitAssignments 1 (200000000, ''200ms'') ?sched)
          = Some (printed ?final)"
    by blast
  moreover from run have "map_option stdout_lines
     (SubmitAssignments 1 (120000000, ''120ms'') ?sched) =
     Some [''Worker 2: Finished assignment 1'', ''Submitting 1 assignments took 120ms'']"
    by (simp add: stdout_lines_def result_line_def Sprint_d_def)
  ultimately show ?thesis by simp
qed

section \<open>Register without the lock\<close>

lemma Register_step_sequential:
  "Register_interleaved [First, First]
     (sm, \<lparr> arg_id = i, arg_name = n, arg_studyProgram = p, pc = AtChecks \<rparr>, c2) =
     (fst (Register sm i n p),
      \<lparr> arg_id = i, arg_name = n, arg_studyProgram = p, pc = Returned (snd (Register sm i n p)) \<rparr>,
      c2)"
  by (cases "Register_check sm i n p")
     (simp_all add: Register_step_def Register_def Register_append_def)

text \<open>
  Claim C9 does not hold of \<open>Register\<close>. Two goroutines call \<open>Register\<close> with the same id on
  the initial manager; nothing blocks the second one between the checks and the append of
  the first. Both pass the check for a used id, both append and both report success: the
  slice then holds two students with the ID \<open>Z00000\<close>.
\<close>

theorem Register_unlocked_interleaving:
  "Register_interleaved [First, Second, First, Second]
     (NewInMemoryStudentManager,
      \<lparr> arg_id = ''Z00000'', arg_name = ''New Student'', arg_studyProgram = ''SI'',
        pc = AtChecks \<rparr>,
      \<lparr> arg_id = ''Z00000'', arg_name = ''Other Student'', arg_studyProgram = ''TI'',
        pc = AtChecks \<rparr>) =
     (NewInMemoryStudentManager\<lparr>students :=
        students NewInMemoryStudentManager
          @ [\<lparr> ID = ''Z00000'', Name = ''New Student'', StudyProgram = ''SI'' \<rparr>,
             \<lparr> ID = ''Z00000'', Name = ''Other Student'', StudyProgram = ''TI'' \<rparr>]\<rparr>,
      \<lparr> arg_id = ''Z00000'', arg_name = ''New Student'', arg_studyProgram = ''SI'',
        pc = Returned (Inr ''Registrasi berhasil: New Student (SI)'') \<rparr>,
      \<lparr> arg_id = ''Z00000'', arg_name = ''Other Student'', arg_studyProgram = ''TI'',
        pc = Returned (Inr ''Registrasi berhasil: Other Student (TI)'') \<rparr>) \<and>
   \<not> distinct (map ID (students (fst
     (Register_interleaved [First, Second, First, Second]
        (NewInMemoryStudentManager,
         \<lparr> arg_id = ''Z00000'', arg_name = ''New Student'', arg_studyProgram = ''SI'',
           pc = AtChecks \<rparr>,
         \<lparr> arg_id = ''Z00000'', arg_name = ''Other Student'', arg_studyProgram = ''TI'',
           pc = AtChecks \<rparr>)))))"
  by (simp add: Register_step_def Register_check_def Register_append_def
        NewInMemoryStudentManager_def)

end
